theory Spec2Isabelle
  imports Complex_Main "HOL-Library.AList"
begin

section \<open>Python errors and results\<close>

text \<open>
  Every exception the modelled code can raise is a value; a function that can raise
  returns \<open>pyerror + 'a\<close>, with \<open>Inl\<close> for the exception.
\<close>

datatype pyerror =
    AssertionError | ZeroDivisionError | NameError | AttributeError
  | KeyError | IndexError | TypeError | RuntimeError | OSError

definition bind_res :: "pyerror + 'a \<Rightarrow> ('a \<Rightarrow> pyerror + 'b) \<Rightarrow> pyerror + 'b" where
  "bind_res r f = (case r of Inl e \<Rightarrow> Inl e | Inr v \<Rightarrow> f v)"

section \<open>Scalars\<close>

text \<open>
  A Python float or a zero-dimensional tensor: a real number, or \<open>nan\<close>, which is what
  the mean of an empty tensor is. Rounding and overflow are not modelled. \<open>nan\<close>
  propagates through arithmetic.
\<close>

datatype tscalar = Num real | NaN

fun tadd :: "tscalar \<Rightarrow> tscalar \<Rightarrow> tscalar" where
  "tadd (Num a) (Num b) = Num (a + b)"
| "tadd _ _ = NaN"

fun tmul :: "tscalar \<Rightarrow> tscalar \<Rightarrow> tscalar" where
  "tmul (Num a) (Num b) = Num (a * b)"
| "tmul _ _ = NaN"

text \<open>Python's \<open>sum\<close>: a left fold from 0.\<close>

definition tsum :: "tscalar list \<Rightarrow> tscalar" where
  "tsum xs = foldl tadd (Num 0) xs"

text \<open>Division of a float by a positive count.\<close>

fun tdiv_count :: "tscalar \<Rightarrow> nat \<Rightarrow> tscalar" where
  "tdiv_count (Num a) n = Num (a / real n)"
| "tdiv_count NaN n = NaN"

section \<open>LossChecker (utils.py)\<close>

text \<open>
  The recorded values are the floats that \<open>loss.item()\<close> yields, so \<open>/\<close> is true
  division. \<open>losses\<close> is the list of per-component lists.
\<close>

record LossChecker =
  num_losses :: int
  losses :: "tscalar list list"

definition LossChecker_init :: "int \<Rightarrow> LossChecker" where
  "LossChecker_init n = \<lparr> num_losses = n, losses = replicate (nat n) [] \<rparr>"

text \<open>\<open>for i, loss_val in enumerate(loss_vals): self.losses[i].append(loss_val)\<close>\<close>

fun update_loop :: "tscalar list list \<Rightarrow> nat \<Rightarrow> tscalar list \<Rightarrow> pyerror + tscalar list list" where
  "update_loop ls i [] = Inr ls"
| "update_loop ls i (v # vs) =
     (if i < length ls then update_loop (ls[i := ls ! i @ [v]]) (Suc i) vs
      else Inl IndexError)"

definition update :: "LossChecker \<Rightarrow> tscalar list \<Rightarrow> pyerror + LossChecker" where
  "update lc loss_vals =
     (if int (length loss_vals) \<noteq> num_losses lc then Inl AssertionError
      else bind_res (update_loop (losses lc) 0 loss_vals)
             (\<lambda>ls. Inr (lc\<lparr> losses := ls \<rparr>)))"

text \<open>
  The slice \<open>xs[start:]\<close> of Python: a negative start counts from the end, and a start
  outside the list is clamped to it.
\<close>

definition slice_from :: "'a list \<Rightarrow> int \<Rightarrow> 'a list" where
  "slice_from xs start =
     (let n = int (length xs);
          s = (if start < 0 then max 0 (start + n) else min start n)
      in drop (nat s) xs)"

text \<open>\<open>sum(_loss) / len(_loss)\<close>\<close>

definition mean_of :: "tscalar list \<Rightarrow> pyerror + tscalar" where
  "mean_of xs = (if xs = [] then Inl ZeroDivisionError
                 else Inr (tdiv_count (tsum xs) (length xs)))"

text \<open>
  \<open>for i, loss in enumerate(self.losses): _loss = loss[-last:];
  mean_losses[i] = sum(_loss) / len(_loss)\<close>
\<close>

fun mean_loop :: "tscalar list \<Rightarrow> nat \<Rightarrow> tscalar list list \<Rightarrow> int \<Rightarrow> pyerror + tscalar list" where
  "mean_loop ms i [] last_n = Inr ms"
| "mean_loop ms i (loss # rest) last_n =
     bind_res (mean_of (slice_from loss (- last_n)))
       (\<lambda>m. if i < length ms then mean_loop (ms[i := m]) (Suc i) rest last_n
            else Inl IndexError)"

definition mean :: "LossChecker \<Rightarrow> int \<Rightarrow> pyerror + tscalar list" where
  "mean lc last_n =
     mean_loop (replicate (nat (num_losses lc)) (Num 0)) 0 (losses lc) last_n"

text \<open>The three updates of the example, from a fresh checker with two components.\<close>

definition lc_example :: "pyerror + LossChecker" where
  "lc_example =
     bind_res (update (LossChecker_init 2) [Num 1, Num 10])
       (\<lambda>lc. bind_res (update lc [Num 2, Num 20]) (\<lambda>lc. update lc [Num 3, Num 30]))"

text \<open>The arithmetic mean of a non-empty list, and a checker as \<open>update\<close> leaves it:
  one list per component, none of them empty.\<close>

definition avg :: "tscalar list \<Rightarrow> tscalar" where
  "avg xs = tdiv_count (tsum xs) (length xs)"

definition lc_recorded :: "LossChecker \<Rightarrow> bool" where
  "lc_recorded lc \<longleftrightarrow>
     length (losses lc) = nat (num_losses lc) \<and> list_all (\<lambda>l. l \<noteq> []) (losses lc)"

section \<open>Tensors\<close>

text \<open>
  A tensor is its shape and its entries by index; entries outside the shape are never
  read. The shape is kept apart from the data because a dimension may be 0.
\<close>

record 'a tensor2 =
  rows :: nat
  cols :: nat
  at2 :: "nat \<Rightarrow> nat \<Rightarrow> 'a"

record 'a tensor3 =
  dim0 :: nat
  dim1 :: nat
  dim2 :: nat
  at3 :: "nat \<Rightarrow> nat \<Rightarrow> nat \<Rightarrow> 'a"

text \<open>The sum of \<open>f 0, ..., f (n - 1)\<close>.\<close>

definition sum_upto :: "(nat \<Rightarrow> real) \<Rightarrow> nat \<Rightarrow> real" where
  "sum_upto f n = sum_list (map f [0..<n])"

text \<open>\<open>F.softmax(x, dim=1)\<close> and \<open>F.log_softmax(x, dim=1)\<close>: along the second axis.\<close>

definition softmax_dim1 :: "real tensor3 \<Rightarrow> real tensor3" where
  "softmax_dim1 x =
     x\<lparr> at3 := \<lambda>t b v. exp (at3 x t b v) / sum_upto (\<lambda>b'. exp (at3 x t b' v)) (dim1 x) \<rparr>"

definition log_softmax_dim1 :: "real tensor3 \<Rightarrow> real tensor3" where
  "log_softmax_dim1 x =
     x\<lparr> at3 := \<lambda>t b v. at3 x t b v - ln (sum_upto (\<lambda>b'. exp (at3 x t b' v)) (dim1 x)) \<rparr>"

text \<open>The elementwise product of two tensors of one shape.\<close>

definition mul3 :: "real tensor3 \<Rightarrow> real tensor3 \<Rightarrow> real tensor3" where
  "mul3 x y = x\<lparr> at3 := \<lambda>t b v. at3 x t b v * at3 y t b v \<rparr>"

text \<open>\<open>b.sum(dim=2)\<close>\<close>

definition sum_dim2 :: "real tensor3 \<Rightarrow> real tensor2" where
  "sum_dim2 x =
     \<lparr> rows = dim0 x, cols = dim1 x, at2 = \<lambda>t b. sum_upto (at3 x t b) (dim2 x) \<rparr>"

text \<open>
  \<open>b[mask] = c\<close>: the boolean mask must have the shape of \<open>b\<close>, or the indexing raises.
\<close>

definition mask_assign :: "real tensor2 \<Rightarrow> bool tensor2 \<Rightarrow> real \<Rightarrow> pyerror + real tensor2" where
  "mask_assign b m c =
     (if rows m = rows b \<and> cols m = cols b
      then Inr (b\<lparr> at2 := \<lambda>t j. if at2 m t j then c else at2 b t j \<rparr>)
      else Inl IndexError)"

text \<open>\<open>b.sum(dim=0)\<close>: one sum per column.\<close>

definition sum_dim0 :: "real tensor2 \<Rightarrow> real list" where
  "sum_dim0 b = map (\<lambda>j. sum_upto (\<lambda>t. at2 b t j) (rows b)) [0..<cols b]"

text \<open>\<open>.mean()\<close>: the mean of an empty tensor is \<open>nan\<close>.\<close>

definition mean_vec :: "real list \<Rightarrow> tscalar" where
  "mean_vec xs = (if xs = [] then NaN else Num (sum_list xs / real (length xs)))"

section \<open>entropy\_loss (utils.py)\<close>

definition entropy_loss :: "real tensor3 \<Rightarrow> bool tensor2 \<Rightarrow> pyerror + tscalar" where
  "entropy_loss x ignore_mask =
     (let b = mul3 (softmax_dim1 x) (log_softmax_dim1 x);
          b = sum_dim2 b
      in bind_res (mask_assign b ignore_mask 0)
           (\<lambda>b. Inr (tmul (Num (- 1)) (mean_vec (sum_dim0 b)))))"

text \<open>Every (time, batch) position of \<open>x\<close> is flagged by the mask.\<close>

definition all_masked :: "real tensor3 \<Rightarrow> bool tensor2 \<Rightarrow> bool" where
  "all_masked x m \<longleftrightarrow>
     rows m = dim0 x \<and> cols m = dim1 x \<and>
     list_all (\<lambda>t. list_all (\<lambda>j. at2 m t j) [0..<dim1 x]) [0..<dim0 x]"

text \<open>A logits tensor with an empty batch axis, and its (empty) mask.\<close>

definition empty_batch_logits :: "real tensor3" where
  "empty_batch_logits = \<lparr> dim0 = 1, dim1 = 0, dim2 = 1, at3 = \<lambda>t b v. 0 \<rparr>"

definition empty_batch_mask :: "bool tensor2" where
  "empty_batch_mask = \<lparr> rows = 1, cols = 0, at2 = \<lambda>t b. True \<rparr>"

text \<open>A fully masked input with one time step, two batch elements and two words.\<close>

definition masked_logits :: "real tensor3" where
  "masked_logits = \<lparr> dim0 = 1, dim1 = 2, dim2 = 2, at3 = \<lambda>t b v. real (b + v) \<rparr>"

definition masked_mask :: "bool tensor2" where
  "masked_mask = \<lparr> rows = 1, cols = 2, at2 = \<lambda>t b. True \<rparr>"

section \<open>Dictionaries, strings and the vocabulary\<close>

text \<open>
  A \<open>dict\<close> is an association list in insertion order; \<open>d[k] = v\<close> is \<open>AList.update\<close>
  (an existing key keeps its place, a new key goes last) and \<open>d[k]\<close> raises \<open>KeyError\<close>
  on a missing key.
\<close>

type_synonym ('k, 'v) dict = "('k \<times> 'v) list"

definition keys :: "('k, 'v) dict \<Rightarrow> 'k list" where
  "keys d = map fst d"

definition vals :: "('k, 'v) dict \<Rightarrow> 'v list" where
  "vals d = map snd d"

definition getitem :: "('k, 'v) dict \<Rightarrow> 'k \<Rightarrow> pyerror + 'v" where
  "getitem d k = (case map_of d k of None \<Rightarrow> Inl KeyError | Some v \<Rightarrow> Inr v)"

text \<open>\<open>d.update(e)\<close>\<close>

definition dict_update :: "('k, 'v) dict \<Rightarrow> ('k, 'v) dict \<Rightarrow> ('k, 'v) dict" where
  "dict_update d e = foldl (\<lambda>d (k, v). AList.update k v d) d e"

text \<open>\<open>{k: v for k, v in pairs}\<close>\<close>

definition dict_of :: "('k \<times> 'v) list \<Rightarrow> ('k, 'v) dict" where
  "dict_of pairs = dict_update [] pairs"

text \<open>\<open>sep.join(words)\<close>\<close>

fun join :: "string \<Rightarrow> string list \<Rightarrow> string" where
  "join sep [] = []"
| "join sep [w] = w"
| "join sep (w # ws) = w @ sep @ join sep ws"

record vocab =
  word2idx :: "(string, nat) dict"
  idx2word :: "(nat, string) dict"
  n_vocabs :: nat

section \<open>idxs\_to\_sentence (utils.py)\<close>

text \<open>The loop over \<open>idxs[1:]\<close>: it stops at the first \<open>EOS_idx\<close>.\<close>

fun words_loop :: "string list \<Rightarrow> nat list \<Rightarrow> (nat, string) dict \<Rightarrow> nat \<Rightarrow> pyerror + string list" where
  "words_loop words [] i2w EOS_idx = Inr words"
| "words_loop words (idx # rest) i2w EOS_idx =
     (if idx = EOS_idx then Inr words
      else bind_res (getitem i2w idx)
             (\<lambda>word. words_loop (words @ [word]) rest i2w EOS_idx))"

definition idxs_to_sentence :: "nat list \<Rightarrow> (nat, string) dict \<Rightarrow> nat \<Rightarrow> pyerror + string" where
  "idxs_to_sentence idxs i2w EOS_idx =
     bind_res (words_loop [] (drop 1 idxs) i2w EOS_idx) (\<lambda>words. Inr (join '' '' words))"

text \<open>\<open>[idxs_to_sentence(c, ...) for c in captions]\<close>\<close>

fun sentences :: "nat list list \<Rightarrow> (nat, string) dict \<Rightarrow> nat \<Rightarrow> pyerror + string list" where
  "sentences [] i2w EOS_idx = Inr []"
| "sentences (c # cs) i2w EOS_idx =
     bind_res (idxs_to_sentence c i2w EOS_idx)
       (\<lambda>s. bind_res (sentences cs i2w EOS_idx) (\<lambda>ss. Inr (s # ss)))"

section \<open>parse\_batch (utils.py)\<close>

text \<open>
  A raw batch: the video ids, one feature tensor (video, frame, feature) per stream, and
  the caption tensor (time, batch).
\<close>

record batch =
  b_vids :: "string list"
  b_feats :: "real tensor3 list"
  b_captions :: "nat tensor2"

fun cat2_at :: "real tensor3 list \<Rightarrow> nat \<Rightarrow> nat \<Rightarrow> nat \<Rightarrow> real" where
  "cat2_at [] i j k = 0"
| "cat2_at (t # ts) i j k = (if k < dim2 t then at3 t i j k else cat2_at ts i j (k - dim2 t))"

text \<open>\<open>torch.cat(feats, dim=2)\<close>: the tensors must agree on the other two axes.\<close>

definition torch_cat_dim2 :: "real tensor3 list \<Rightarrow> pyerror + real tensor3" where
  "torch_cat_dim2 ts =
     (case ts of
        [] \<Rightarrow> Inl RuntimeError
      | t # _ \<Rightarrow>
          if list_all (\<lambda>u. dim0 u = dim0 t \<and> dim1 u = dim1 t) ts
          then Inr \<lparr> dim0 = dim0 t, dim1 = dim1 t, dim2 = sum_list (map dim2 ts),
                     at3 = cat2_at ts \<rparr>
          else Inl RuntimeError)"

definition parse_batch :: "batch \<Rightarrow> pyerror + (string list \<times> real tensor3 \<times> nat tensor2)" where
  "parse_batch b =
     bind_res (torch_cat_dim2 (b_feats b)) (\<lambda>feats. Inr (b_vids b, feats, b_captions b))"

text \<open>Iterating over a tensor yields its slices along the first axis.\<close>

definition unbind3 :: "'a tensor3 \<Rightarrow> 'a tensor2 list" where
  "unbind3 x = map (\<lambda>i. \<lparr> rows = dim1 x, cols = dim2 x, at2 = at3 x i \<rparr>) [0..<dim0 x]"

definition unbind2 :: "'a tensor2 \<Rightarrow> 'a list list" where
  "unbind2 x = map (\<lambda>i. map (at2 x i) [0..<cols x]) [0..<rows x]"

definition transpose01 :: "'a tensor2 \<Rightarrow> 'a tensor2" where
  "transpose01 x = \<lparr> rows = cols x, cols = rows x, at2 = \<lambda>i j. at2 x j i \<rparr>"

text \<open>\<open>torch.stack(ts)\<close>: a non-empty list of tensors of one shape.\<close>

definition torch_stack :: "real tensor2 list \<Rightarrow> pyerror + real tensor3" where
  "torch_stack ts =
     (case ts of
        [] \<Rightarrow> Inl RuntimeError
      | t # _ \<Rightarrow>
          if list_all (\<lambda>u. rows u = rows t \<and> cols u = cols t) ts
          then Inr \<lparr> dim0 = length ts, dim1 = rows t, dim2 = cols t,
                     at3 = \<lambda>i. at2 (ts ! i) \<rparr>
          else Inl RuntimeError)"

section \<open>get\_predicted\_captions (utils.py)\<close>

text \<open>\<open>for vid, feat in zip(vids, feats): if vid not in onlyonce_dataset: ...\<close>\<close>

fun add_once :: "(string, real tensor2) dict \<Rightarrow> (string \<times> real tensor2) list \<Rightarrow> (string, real tensor2) dict" where
  "add_once d [] = d"
| "add_once d ((vid, feat) # rest) =
     (if vid \<notin> set (keys d) then add_once (AList.update vid feat d) rest
      else add_once d rest)"

text \<open>\<open>for batch in iter(data_iter): vids, feats, _ = parse_batch(batch); ...\<close>\<close>

fun onlyonce_loop :: "(string, real tensor2) dict \<Rightarrow> batch list \<Rightarrow> pyerror + (string, real tensor2) dict" where
  "onlyonce_loop d [] = Inr d"
| "onlyonce_loop d (b # bs) =
     bind_res (parse_batch b)
       (\<lambda>(vids, feats, _). onlyonce_loop (add_once d (zip vids (unbind3 feats))) bs)"

text \<open>
  \<open>vids = onlyonce_dataset.keys()\<close> and \<open>feats = onlyonce_dataset.values()\<close> are sliced in
  the loop that follows. Where they are lists (Python 2) a slice is a list; where they are
  views of the dictionary (Python 3) they have a length but slicing one raises \<open>TypeError\<close>.
  The interpreter is a parameter of the functions that reach this loop.
\<close>

datatype python = Python2 | Python3

text \<open>
  The \<open>while len(vids) > 0\<close> loop; \<open>vids[:batch_size]\<close> is the first slice it evaluates.
\<close>

function rebatch :: "python \<Rightarrow> (string list \<times> real tensor3) list \<Rightarrow> string list
    \<Rightarrow> real tensor2 list \<Rightarrow> pyerror + (string list \<times> real tensor3) list" where
  "rebatch py acc vids feats =
     (if length vids > 0
      then (if py = Python3 then Inl TypeError
            else (case torch_stack (take 100 feats) of
                    Inl e \<Rightarrow> Inl e
                  | Inr stacked \<Rightarrow>
                      rebatch py (acc @ [(take 100 vids, stacked)])
                        (drop 100 vids) (drop 100 feats)))
      else Inr acc)"
  by pat_completeness auto
termination
  by (relation "measure (\<lambda>(py, acc, vids, feats). length vids)") auto

definition build_onlyonce_iter :: "python \<Rightarrow> batch list
    \<Rightarrow> pyerror + (string list \<times> real tensor3) list" where
  "build_onlyonce_iter py data_iter =
     bind_res (onlyonce_loop [] data_iter)
       (\<lambda>onlyonce_dataset. rebatch py [] (keys onlyonce_dataset) (vals onlyonce_dataset))"

text \<open>
  The model object passed in: its mutable state \<open>'m\<close>, \<open>model.eval()\<close> and
  \<open>model.describe(feats, beam_width, beam_alpha)\<close>, which returns one index sequence per
  video.
\<close>

record 'm caption_model =
  m_eval :: "'m \<Rightarrow> 'm"
  m_describe :: "'m \<Rightarrow> real tensor3 \<Rightarrow> int \<Rightarrow> real \<Rightarrow> pyerror + (nat list list \<times> 'm)"

text \<open>\<open>for vids, feats in onlyonce_iter: ...\<close>\<close>

fun predict_loop :: "'m caption_model \<Rightarrow> 'm \<Rightarrow> vocab \<Rightarrow> nat \<Rightarrow> int \<Rightarrow> real
    \<Rightarrow> (string, string) dict \<Rightarrow> (string list \<times> real tensor3) list
    \<Rightarrow> pyerror + ((string, string) dict \<times> 'm)" where
  "predict_loop M st vocab EOS_idx beam_width beam_alpha vid2pred [] = Inr (vid2pred, st)"
| "predict_loop M st vocab EOS_idx beam_width beam_alpha vid2pred ((vids, feats) # rest) =
     bind_res (m_describe M st feats beam_width beam_alpha)
       (\<lambda>(captions, st').
          bind_res (sentences captions (idx2word vocab) EOS_idx)
            (\<lambda>captions.
               predict_loop M st' vocab EOS_idx beam_width beam_alpha
                 (dict_update vid2pred (dict_of (zip vids captions))) rest))"

definition get_predicted_captions :: "python \<Rightarrow> batch list \<Rightarrow> 'm caption_model \<Rightarrow> 'm \<Rightarrow> vocab
    \<Rightarrow> int \<Rightarrow> real
    \<Rightarrow> pyerror + ((string, string) dict \<times> 'm)" where
  "get_predicted_captions py data_iter M st vocab beam_width beam_alpha =
     (let st = m_eval M st in
      bind_res (build_onlyonce_iter py data_iter)
        (\<lambda>onlyonce_iter.
           bind_res (getitem (word2idx vocab) ''<EOS>'')
             (\<lambda>EOS_idx.
                predict_loop M st vocab EOS_idx beam_width beam_alpha [] onlyonce_iter)))"

section \<open>get\_groundtruth\_captions (utils.py)\<close>

text \<open>
  \<open>for vid, caption in zip(vids, captions): if vid not in vid2GTs: vid2GTs[vid] = [];
  vid2GTs[vid].append(idxs_to_sentence(caption, ...))\<close>
\<close>

fun gt_inner :: "(string, string list) dict \<Rightarrow> (string \<times> nat list) list \<Rightarrow> vocab \<Rightarrow> nat
    \<Rightarrow> pyerror + (string, string list) dict" where
  "gt_inner d [] vocab EOS_idx = Inr d"
| "gt_inner d ((vid, caption) # rest) vocab EOS_idx =
     (let d = (if vid \<notin> set (keys d) then AList.update vid [] d else d) in
      bind_res (idxs_to_sentence caption (idx2word vocab) EOS_idx)
        (\<lambda>caption.
           bind_res (getitem d vid)
             (\<lambda>gts. gt_inner (AList.update vid (gts @ [caption]) d) rest vocab EOS_idx)))"

fun gt_loop :: "(string, string list) dict \<Rightarrow> batch list \<Rightarrow> vocab \<Rightarrow> nat
    \<Rightarrow> pyerror + (string, string list) dict" where
  "gt_loop d [] vocab EOS_idx = Inr d"
| "gt_loop d (b # bs) vocab EOS_idx =
     bind_res (parse_batch b)
       (\<lambda>(vids, _, captions).
          bind_res (gt_inner d (zip vids (unbind2 (transpose01 captions))) vocab EOS_idx)
            (\<lambda>d. gt_loop d bs vocab EOS_idx))"

definition get_groundtruth_captions :: "batch list \<Rightarrow> vocab \<Rightarrow> pyerror + (string, string list) dict" where
  "get_groundtruth_captions data_iter vocab =
     bind_res (getitem (word2idx vocab) ''<EOS>'')
       (\<lambda>EOS_idx. gt_loop [] data_iter vocab EOS_idx)"

section \<open>score, calc\_scores and evaluate (utils.py)\<close>

text \<open>
  What the external BLEU scorer's \<open>compute_score\<close> returns first: a list of scores, or a
  single one. The scorer itself is a parameter.
\<close>

datatype score_value = ScoreList "real list" | ScoreSingle real

type_synonym scorer =
  "(nat, string list) dict \<Rightarrow> (nat, string list) dict \<Rightarrow> pyerror + score_value"

text \<open>
  The one scorer of the list is \<open>(Bleu(4), ["Bleu_1", ..., "Bleu_4"])\<close>; in the \<open>else\<close>
  branch the key would be that list, which is not hashable.
\<close>

definition calc_scores :: "scorer \<Rightarrow> (nat, string list) dict \<Rightarrow> (nat, string list) dict
    \<Rightarrow> pyerror + (string, real) dict" where
  "calc_scores bleu ref hypo =
     bind_res (bleu ref hypo)
       (\<lambda>score. case score of
          ScoreList ss \<Rightarrow>
            Inr (dict_update [] (zip [''Bleu_1'', ''Bleu_2'', ''Bleu_3'', ''Bleu_4''] ss))
        | ScoreSingle s \<Rightarrow> Inl TypeError)"

text \<open>\<open>{ vid2idx[vid]: f(x) for vid, x in d.items() }\<close>\<close>

fun remap :: "(string, nat) dict \<Rightarrow> ('a \<Rightarrow> 'b) \<Rightarrow> (nat, 'b) dict \<Rightarrow> (string \<times> 'a) list
    \<Rightarrow> pyerror + (nat, 'b) dict" where
  "remap vid2idx f acc [] = Inr acc"
| "remap vid2idx f acc ((vid, x) # rest) =
     bind_res (getitem vid2idx vid)
       (\<lambda>i. remap vid2idx f (AList.update i (f x) acc) rest)"

definition score :: "scorer \<Rightarrow> (string, string) dict \<Rightarrow> (string, string list) dict
    \<Rightarrow> pyerror + (string, real) dict" where
  "score bleu vid2pred vid2GTs =
     (if set (keys vid2pred) \<noteq> set (keys vid2GTs) then Inl AssertionError
      else
        let vid2idx = dict_of (map (\<lambda>(i, v). (v, i)) (enumerate 0 (keys vid2pred))) in
        bind_res (remap vid2idx (\<lambda>GTs. GTs) [] vid2GTs)
          (\<lambda>refs. bind_res (remap vid2idx (\<lambda>pred. [pred]) [] vid2pred)
             (\<lambda>hypos. calc_scores bleu refs hypos)))"

definition evaluate :: "python \<Rightarrow> scorer \<Rightarrow> batch list \<Rightarrow> 'm caption_model \<Rightarrow> 'm \<Rightarrow> vocab
    \<Rightarrow> int \<Rightarrow> real
    \<Rightarrow> pyerror + ((string, real) dict \<times> 'm)" where
  "evaluate py bleu data_iter M st vocab beam_width beam_alpha =
     bind_res (get_predicted_captions py data_iter M st vocab 5 0)
       (\<lambda>(vid2pred, st).
          bind_res (get_groundtruth_captions data_iter vocab)
            (\<lambda>vid2GTs. bind_res (score bleu vid2pred vid2GTs)
               (\<lambda>scores. Inr (scores, st))))"

section \<open>save\_result (utils.py)\<close>

text \<open>
  The operating system, as far as \<open>save_result\<close> uses it, over a file system state \<open>'fs\<close>:
  \<open>os.path.exists\<close>, \<open>os.makedirs\<close>, \<open>open(path, 'w')\<close> and \<open>fout.write\<close> to the file
  opened at a path.
\<close>

record 'fs os_ops =
  path_exists :: "'fs \<Rightarrow> string \<Rightarrow> bool"
  makedirs :: "'fs \<Rightarrow> string \<Rightarrow> pyerror + 'fs"
  open_w :: "'fs \<Rightarrow> string \<Rightarrow> pyerror + 'fs"
  fout_write :: "'fs \<Rightarrow> string \<Rightarrow> string \<Rightarrow> pyerror + 'fs"

text \<open>\<open>os.path.dirname\<close> (POSIX): up to the last slash, without trailing slashes unless
  it is only slashes.\<close>

definition dirname :: "string \<Rightarrow> string" where
  "dirname p =
     (let head = rev (dropWhile (\<lambda>c. c \<noteq> CHR ''/'') (rev p)) in
      if head \<noteq> [] \<and> \<not> list_all (\<lambda>c. c = CHR ''/'') head
      then rev (dropWhile (\<lambda>c. c = CHR ''/'') (rev head)) else head)"

text \<open>The loop \<open>for vid in vids\<close> that writes one line per video.\<close>

fun write_lines :: "'fs os_ops \<Rightarrow> 'fs \<Rightarrow> string \<Rightarrow> (string, string) dict \<Rightarrow> (string, string list) dict
    \<Rightarrow> string list \<Rightarrow> pyerror + 'fs" where
  "write_lines os fs path vid2pred vid2GTs [] = Inr fs"
| "write_lines os fs path vid2pred vid2GTs (vid # vids) =
     bind_res (getitem vid2GTs vid)
       (\<lambda>gts. let GTs = join '' / '' gts in
          bind_res (getitem vid2pred vid)
            (\<lambda>pred. let line = join '', '' [vid, pred, GTs] in
               bind_res (fout_write os fs path (line @ [CHR 0x0A]))
                 (\<lambda>fs. write_lines os fs path vid2pred vid2GTs vids)))"

definition save_result :: "'fs os_ops \<Rightarrow> 'fs \<Rightarrow> (string, string) dict \<Rightarrow> (string, string list) dict
    \<Rightarrow> string \<Rightarrow> pyerror + 'fs" where
  "save_result os fs vid2pred vid2GTs save_fpath =
     (if set (keys vid2pred) \<noteq> set (keys vid2GTs) then Inl AssertionError
      else
        let save_dpath = dirname save_fpath in
        bind_res (if \<not> path_exists os fs save_dpath then makedirs os fs save_dpath else Inr fs)
          (\<lambda>fs. bind_res (open_w os fs save_fpath)
             (\<lambda>fs. write_lines os fs save_fpath vid2pred vid2GTs (keys vid2pred))))"

text \<open>An operating system whose three effects never fail.\<close>

definition os_succeeds :: "'fs os_ops \<Rightarrow> bool" where
  "os_succeeds os \<longleftrightarrow>
     (\<forall>fs p. \<exists>fs'. makedirs os fs p = Inr fs') \<and>
     (\<forall>fs p. \<exists>fs'. open_w os fs p = Inr fs') \<and>
     (\<forall>fs p s. \<exists>fs'. fout_write os fs p s = Inr fs')"

text \<open>Examples: a file system that is the list of strings written to the one open file,
  a scorer that counts its inputs, and the two maps of the key-set example.\<close>

definition mem_os :: "(string list) os_ops" where
  "mem_os = \<lparr> path_exists = \<lambda>fs p. False, makedirs = \<lambda>fs p. Inr fs,
              open_w = \<lambda>fs p. Inr [], fout_write = \<lambda>fs p s. Inr (fs @ [s]) \<rparr>"

definition bleu_stub :: scorer where
  "bleu_stub ref hypo = Inr (ScoreList [real (length ref), real (length hypo), 0, 0])"

definition pred_v1 :: "(string, string) dict" where
  "pred_v1 = [(''v1'', ''a man'')]"

definition refs_v1_v2 :: "(string, string list) dict" where
  "refs_v1_v2 = [(''v1'', [''a man'']), (''v2'', [''a dog''])]"

definition refs_v1 :: "(string, string list) dict" where
  "refs_v1 = [(''v1'', [''a man'', ''one man''])]"

text \<open>
  For stating what \<open>get_predicted_captions\<close> does: the (video id, feature) pairs of the
  iterator in the order they are seen; a batch whose ids and features line up and whose
  features have \<open>F\<close> frames of \<open>D\<close> numbers; and a model that describes with a fixed function
  \<open>g\<close> and whose state is the list of the \<open>describe\<close> calls made so far.
\<close>

fun parsed_pairs :: "batch list \<Rightarrow> (string \<times> real tensor2) list" where
  "parsed_pairs [] = []"
| "parsed_pairs (b # bs) =
     (case parse_batch b of
        Inl e \<Rightarrow> []
      | Inr (vids, feats, captions) \<Rightarrow> zip vids (unbind3 feats)) @ parsed_pairs bs"

definition wf_batch :: "nat \<Rightarrow> nat \<Rightarrow> batch \<Rightarrow> bool" where
  "wf_batch F D b =
     (case parse_batch b of
        Inl e \<Rightarrow> False
      | Inr (vids, feats, captions) \<Rightarrow>
          length vids = dim0 feats \<and> dim1 feats = F \<and> dim2 feats = D)"

type_synonym describe_call = "real tensor3 \<times> int \<times> real"

definition logging_model :: "(real tensor3 \<Rightarrow> int \<Rightarrow> real \<Rightarrow> nat list list)
    \<Rightarrow> (describe_call list) caption_model" where
  "logging_model g =
     \<lparr> m_eval = \<lambda>calls. calls,
       m_describe = \<lambda>calls feats beam_width beam_alpha.
         Inr (g feats beam_width beam_alpha, calls @ [(feats, beam_width, beam_alpha)]) \<rparr>"

text \<open>An iterator of two batches in which \<open>v1\<close> comes twice, a vocabulary with one
  ordinary word, and a describer that says that word for every video.\<close>

definition demo_vocab :: vocab where
  "demo_vocab = \<lparr> word2idx = [(''<PAD>'', 0), (''<SOS>'', 1), (''<EOS>'', 2), (''a'', 3)],
                   idx2word = [(0, ''<PAD>''), (1, ''<SOS>''), (2, ''<EOS>''), (3, ''a'')],
                   n_vocabs = 4 \<rparr>"

definition demo_iter :: "batch list" where
  "demo_iter =
     [\<lparr> b_vids = [''v1'', ''v2''],
        b_feats = [\<lparr> dim0 = 2, dim1 = 1, dim2 = 1, at3 = \<lambda>i j k. real i \<rparr>],
        b_captions = \<lparr> rows = 2, cols = 2, at2 = \<lambda>t b. if t = 0 then 1 else 2 \<rparr> \<rparr>,
      \<lparr> b_vids = [''v1''],
        b_feats = [\<lparr> dim0 = 1, dim1 = 1, dim2 = 1, at3 = \<lambda>i j k. 7 \<rparr>],
        b_captions = \<lparr> rows = 2, cols = 1, at2 = \<lambda>t b. if t = 0 then 1 else 2 \<rparr> \<rparr>]"

definition demo_describe :: "real tensor3 \<Rightarrow> int \<Rightarrow> real \<Rightarrow> nat list list" where
  "demo_describe feats beam_width beam_alpha = replicate (dim0 feats) [1, 3, 2]"

section \<open>train (utils.py)\<close>

text \<open>
  The names bound at module level in \<open>utils.py\<close>: its imports, its class and its
  functions. A global name that is not among them (nor a builtin) raises \<open>NameError\<close> when
  it is read.
\<close>

definition utils_globals :: "string list" where
  "utils_globals =
     [''inspect'', ''math'', ''os'', ''torch'', ''nn'', ''F'', ''tqdm'', ''Bleu'',
      ''LossChecker'', ''parse_batch'', ''entropy_loss'', ''train'', ''test'',
      ''get_predicted_captions'', ''get_groundtruth_captions'', ''score'', ''calc_scores'',
      ''evaluate'', ''get_lr'', ''idxs_to_sentence'', ''cls_to_dict'', ''Struct'',
      ''dict_to_cls'', ''load_checkpoint'', ''save_checkpoint'', ''save_result'']"

definition load_global :: "string \<Rightarrow> pyerror + unit" where
  "load_global name = (if name \<in> set utils_globals then Inr () else Inl NameError)"

text \<open>\<open>x[1:]\<close> along the first axis, and \<open>captions == PAD_idx\<close>.\<close>

definition tail3 :: "'a tensor3 \<Rightarrow> 'a tensor3" where
  "tail3 x = x\<lparr> dim0 := dim0 x - 1, at3 := \<lambda>t. at3 x (Suc t) \<rparr>"

definition tail2 :: "'a tensor2 \<Rightarrow> 'a tensor2" where
  "tail2 x = x\<lparr> rows := rows x - 1, at2 := \<lambda>t. at2 x (Suc t) \<rparr>"

definition eq_mask :: "nat tensor2 \<Rightarrow> nat \<Rightarrow> bool tensor2" where
  "eq_mask c PAD_idx = \<lparr> rows = rows c, cols = cols c, at2 = \<lambda>t b. at2 c t b = PAD_idx \<rparr>"

text \<open>
  What \<open>train\<close> is given or imports, over the state \<open>'m\<close> of the model and the optimizer
  (parameters, gradients, random source): \<open>model.train()\<close>, \<open>optimizer.zero_grad()\<close>,
  \<open>model(feats, captions, teacher_forcing_ratio)\<close>, \<open>F.nll_loss\<close> on the two views with
  its \<open>ignore_index\<close>, \<open>loss.backward()\<close>, \<open>clip_grad_norm_\<close> and \<open>optimizer.step()\<close>.
\<close>

record 'm train_ops =
  t_train_mode :: "'m \<Rightarrow> 'm"
  t_zero_grad :: "'m \<Rightarrow> 'm"
  t_forward :: "'m \<Rightarrow> real tensor3 \<Rightarrow> nat tensor2 \<Rightarrow> real \<Rightarrow> pyerror + (real tensor3 \<times> 'm)"
  t_nll_loss :: "real tensor3 \<Rightarrow> nat tensor2 \<Rightarrow> nat \<Rightarrow> nat \<Rightarrow> pyerror + tscalar"
  t_backward :: "'m \<Rightarrow> tscalar \<Rightarrow> pyerror + 'm"
  t_clip_grad_norm :: "'m \<Rightarrow> real \<Rightarrow> 'm"
  t_step :: "'m \<Rightarrow> 'm"

record epoch_loss =
  total :: tscalar
  cross_entropy :: tscalar
  entropy :: tscalar

text \<open>
  The body of \<open>for batch in t\<close>. The entropy term is read as \<open>losses.entropy_loss\<close>: the
  global \<open>losses\<close> is looked up first, and only then its attribute (taken here to be the
  \<open>entropy_loss\<close> of this module).
\<close>

fun train_loop :: "'m train_ops \<Rightarrow> 'm \<Rightarrow> LossChecker \<Rightarrow> vocab \<Rightarrow> nat \<Rightarrow> real \<Rightarrow> real
    \<Rightarrow> real option \<Rightarrow> batch list \<Rightarrow> pyerror + (LossChecker \<times> 'm)" where
  "train_loop ops st loss_checker vocab PAD_idx teacher_forcing_ratio reg_lambda gradient_clip []
     = Inr (loss_checker, st)"
| "train_loop ops st loss_checker vocab PAD_idx teacher_forcing_ratio reg_lambda gradient_clip
     (b # rest) =
     bind_res (parse_batch b) (\<lambda>(_, feats, captions).
     let st = t_zero_grad ops st in
     bind_res (t_forward ops st feats captions teacher_forcing_ratio) (\<lambda>(output, st).
     bind_res (t_nll_loss ops (tail3 output) (tail2 captions) (n_vocabs vocab) PAD_idx)
       (\<lambda>cross_entropy_loss.
     bind_res (load_global ''losses'') (\<lambda>_.
     bind_res (entropy_loss (tail3 output) (eq_mask (tail2 captions) PAD_idx))
       (\<lambda>entropy_term.
     let loss = tadd cross_entropy_loss (tmul (Num reg_lambda) entropy_term) in
     bind_res (t_backward ops st loss) (\<lambda>st.
     let st = (case gradient_clip of None \<Rightarrow> st | Some c \<Rightarrow> t_clip_grad_norm ops st c);
         st = t_step ops st in
     bind_res (update loss_checker [loss, cross_entropy_loss, entropy_term])
       (\<lambda>loss_checker.
     bind_res (mean loss_checker 10) (\<lambda>_.
     train_loop ops st loss_checker vocab PAD_idx teacher_forcing_ratio reg_lambda
       gradient_clip rest))))))))"

definition train :: "'m train_ops \<Rightarrow> 'm \<Rightarrow> batch list \<Rightarrow> vocab \<Rightarrow> real \<Rightarrow> real \<Rightarrow> real option
    \<Rightarrow> pyerror + (epoch_loss \<times> 'm)" where
  "train ops st train_iter vocab teacher_forcing_ratio reg_lambda gradient_clip =
     (let st = t_train_mode ops st;
          loss_checker = LossChecker_init 3 in
      bind_res (getitem (word2idx vocab) ''<PAD>'') (\<lambda>PAD_idx.
      bind_res (train_loop ops st loss_checker vocab PAD_idx teacher_forcing_ratio reg_lambda
                  gradient_clip train_iter) (\<lambda>(loss_checker, st).
      bind_res (mean loss_checker 0) (\<lambda>ms.
        case ms of
          [total_loss, cross_entropy_loss, entropy_term] \<Rightarrow>
            Inr (\<lparr> total = total_loss, cross_entropy = cross_entropy_loss,
                    entropy = entropy_term \<rparr>, st)
        | _ \<Rightarrow> Inl TypeError))))"

text \<open>
  A smallest training run: one batch with one video, a caption of two time steps over a
  vocabulary of three words, and a model whose output is all zeros.
\<close>

definition tiny_vocab :: vocab where
  "tiny_vocab = \<lparr> word2idx = [(''<PAD>'', 0), (''<SOS>'', 1), (''<EOS>'', 2)],
                   idx2word = [(0, ''<PAD>''), (1, ''<SOS>''), (2, ''<EOS>'')],
                   n_vocabs = 3 \<rparr>"

definition tiny_batch :: batch where
  "tiny_batch =
     \<lparr> b_vids = [''video0''],
       b_feats = [\<lparr> dim0 = 1, dim1 = 1, dim2 = 1, at3 = \<lambda>i j k. 0 \<rparr>],
       b_captions = \<lparr> rows = 2, cols = 1, at2 = \<lambda>t b. if t = 0 then 1 else 2 \<rparr> \<rparr>"

definition tiny_ops :: "unit train_ops" where
  "tiny_ops =
     \<lparr> t_train_mode = \<lambda>st. st, t_zero_grad = \<lambda>st. st,
       t_forward = \<lambda>st feats captions r.
         Inr (\<lparr> dim0 = 2, dim1 = 1, dim2 = 3, at3 = \<lambda>t b v. 0 \<rparr>, st),
       t_nll_loss = \<lambda>out tgt n ignore. Inr (Num 0),
       t_backward = \<lambda>st l. Inr st, t_clip_grad_norm = \<lambda>st c. st, t_step = \<lambda>st. st \<rparr>"

section \<open>Decoder.\_\_init\_\_ (models.py)\<close>

text \<open>
  The modules the constructor builds, by their configuration, and the values an attribute
  can hold.
\<close>

datatype nn_module =
    Embedding int int
  | Attention int int int
  | RNN string int int int real bool
  | Linear int int

datatype pyvalue = VInt int | VFloat real | VStr string | VModule nn_module

text \<open>
  An instance of a subclass of \<open>nn.Module\<close>: its attributes, and whether
  \<open>nn.Module.__init__\<close> has run on it. Before that a plain value can be assigned, but
  assigning a module raises, and reading an attribute that was never assigned raises.
\<close>

record pyobject =
  obj_attrs :: "(string, pyvalue) dict"
  module_init_done :: bool

definition obj_setattr :: "pyobject \<Rightarrow> string \<Rightarrow> pyvalue \<Rightarrow> pyerror + pyobject" where
  "obj_setattr self name v =
     (case v of
        VModule _ \<Rightarrow>
          if module_init_done self
          then Inr (self\<lparr> obj_attrs := AList.update name v (obj_attrs self) \<rparr>)
          else Inl AttributeError
      | _ \<Rightarrow> Inr (self\<lparr> obj_attrs := AList.update name v (obj_attrs self) \<rparr>))"

definition obj_getattr :: "pyobject \<Rightarrow> string \<Rightarrow> pyerror + pyvalue" where
  "obj_getattr self name =
     (case map_of (obj_attrs self) name of None \<Rightarrow> Inl AttributeError | Some v \<Rightarrow> Inr v)"

text \<open>An attribute read where an integer is needed.\<close>

definition getint :: "pyobject \<Rightarrow> string \<Rightarrow> pyerror + int" where
  "getint self name =
     bind_res (obj_getattr self name) (\<lambda>v. case v of VInt i \<Rightarrow> Inr i | _ \<Rightarrow> Inl TypeError)"

definition getfloat :: "pyobject \<Rightarrow> string \<Rightarrow> pyerror + real" where
  "getfloat self name =
     bind_res (obj_getattr self name)
       (\<lambda>v. case v of VFloat r \<Rightarrow> Inr r | VInt i \<Rightarrow> Inr (real_of_int i) | _ \<Rightarrow> Inl TypeError)"

record decoder_args =
  a_rnn_type :: string
  a_num_layers :: int
  a_num_directions :: int
  a_feat_size :: int
  a_feat_len :: int
  a_embedding_size :: int
  a_hidden_size :: int
  a_attn_size :: int
  a_output_size :: int
  a_rnn_dropout :: real

text \<open>
  The constructor, statement by statement. It does not call \<open>nn.Module.__init__\<close> and
  assigns four of its ten parameters to \<open>self\<close>; every later expression reads \<open>self\<close>.
\<close>

definition Decoder_init :: "decoder_args \<Rightarrow> pyerror + pyobject" where
  "Decoder_init a =
     (let self = \<lparr> obj_attrs = [], module_init_done = False \<rparr> in
      bind_res (obj_setattr self ''hidden_size'' (VInt (a_hidden_size a))) (\<lambda>self.
      bind_res (obj_setattr self ''attn_size'' (VInt (a_attn_size a))) (\<lambda>self.
      bind_res (obj_setattr self ''output_size'' (VInt (a_output_size a))) (\<lambda>self.
      bind_res (obj_setattr self ''rnn_dropout_p'' (VFloat (a_rnn_dropout a))) (\<lambda>self.
      bind_res (getint self ''output_size'') (\<lambda>n.
      bind_res (getint self ''embedding_size'') (\<lambda>e.
      bind_res (obj_setattr self ''embedding'' (VModule (Embedding n e))) (\<lambda>self.
      bind_res (getint self ''num_directions'') (\<lambda>d.
      bind_res (getint self ''hidden_size'') (\<lambda>h.
      bind_res (getint self ''feat_size'') (\<lambda>f.
      bind_res (getint self ''attn_size'') (\<lambda>b.
      bind_res (obj_setattr self ''attention'' (VModule (Attention (d * h) f b))) (\<lambda>self.
      bind_res (obj_getattr self ''rnn_type'') (\<lambda>rt.
      let kind = (if rt = VStr ''LSTM'' then ''LSTM'' else ''GRU'') in
      bind_res (getint self ''embedding_size'') (\<lambda>e.
      bind_res (getint self ''feat_size'') (\<lambda>f.
      bind_res (getint self ''hidden_size'') (\<lambda>h.
      bind_res (getint self ''num_layers'') (\<lambda>l.
      bind_res (getfloat self ''rnn_dropout_p'') (\<lambda>p.
      bind_res (getint self ''num_directions'') (\<lambda>d.
      bind_res (obj_setattr self ''rnn'' (VModule (RNN kind (e + f) h l p (d = 2)))) (\<lambda>self.
      bind_res (getint self ''num_directions'') (\<lambda>d.
      bind_res (getint self ''hidden_size'') (\<lambda>h.
      bind_res (getint self ''output_size'') (\<lambda>n.
      obj_setattr self ''out'' (VModule (Linear (d * h) n))))))))))))))))))))))))))"

text \<open>A usual configuration: one-layer LSTM, 512 hidden units, a vocabulary of 1000.\<close>

definition usual_args :: decoder_args where
  "usual_args =
     \<lparr> a_rnn_type = ''LSTM'', a_num_layers = 1, a_num_directions = 1, a_feat_size = 2048,
       a_feat_len = 28, a_embedding_size = 468, a_hidden_size = 512, a_attn_size = 128,
       a_output_size = 1000, a_rnn_dropout = 0.5 \<rparr>"

section \<open>cls\_to\_dict and dict\_to\_cls (utils.py)\<close>

text \<open>
  The values a configuration holds: plain values, dictionaries with string keys, classes
  and \<open>Struct\<close> instances. A class or an instance is the list of its attributes, each
  name once with the value \<open>getattr\<close> returns for it.
\<close>

datatype cfgval =
    CNone | CBool bool | CInt int | CStr string
  | CDict "(string \<times> cfgval) list"
  | CClass "(string \<times> cfgval) list"
  | CStruct "(string \<times> cfgval) list"

text \<open>\<open>not p.startswith("__")\<close>, and the attributes that pass this filter.\<close>

definition public :: "string \<Rightarrow> bool" where
  "public p \<longleftrightarrow> take 2 p \<noteq> ''__''"

definition public_items :: "(string \<times> 'a) list \<Rightarrow> (string \<times> 'a) list" where
  "public_items attrs = filter (\<lambda>(p, v). public p) attrs"

text \<open>The truth value of a value, as \<open>if v['was_class']\<close> takes it.\<close>

fun truthy :: "cfgval \<Rightarrow> bool" where
  "truthy CNone = False"
| "truthy (CBool b) = b"
| "truthy (CInt i) = (i \<noteq> 0)"
| "truthy (CStr s) = (s \<noteq> [])"
| "truthy (CDict d) = (d \<noteq> [])"
| "truthy (CClass a) = True"
| "truthy (CStruct a) = True"

text \<open>\<open>'was_class' in v and v['was_class']\<close>\<close>

definition marked :: "(string \<times> cfgval) list \<Rightarrow> bool" where
  "marked d = (case map_of d ''was_class'' of None \<Rightarrow> False | Some w \<Rightarrow> truthy w)"

text \<open>
  \<open>cls_to_dict\<close>, given the attributes of its argument: the loop \<open>for p in properties\<close>
  fills \<open>d\<close>; a value that is a class is replaced by its own dictionary with the marker
  added.
\<close>

fun cls_to_dict :: "(string \<times> cfgval) list \<Rightarrow> (string \<times> cfgval) list"
  and to_dict_loop :: "(string \<times> cfgval) list \<Rightarrow> (string \<times> cfgval) list \<Rightarrow> (string \<times> cfgval) list"
  where
  "cls_to_dict attrs = to_dict_loop [] attrs"
| "to_dict_loop d [] = d"
| "to_dict_loop d ((p, v) # rest) =
     (if public p
      then (case v of
              CClass a \<Rightarrow>
                to_dict_loop
                  (AList.update p (CDict (AList.update ''was_class'' (CBool True) (cls_to_dict a))) d)
                  rest
            | _ \<Rightarrow> to_dict_loop (AList.update p v d) rest)
      else to_dict_loop d rest)"

text \<open>
  \<open>dict_to_cls\<close>: \<open>Struct(**d)\<close> binds \<open>self\<close> itself, so a key \<open>self\<close> is a \<open>TypeError\<close>;
  then every public attribute that is a marked dictionary is replaced by its own
  \<open>Struct\<close>. The result is the instance's attributes.
\<close>

fun dict_to_cls :: "(string \<times> cfgval) list \<Rightarrow> pyerror + cfgval"
  and to_cls_loop :: "(string \<times> cfgval) list \<Rightarrow> (string \<times> cfgval) list \<Rightarrow> pyerror + (string \<times> cfgval) list"
  where
  "dict_to_cls d =
     (if ''self'' \<in> set (map fst d) then Inl TypeError
      else (case to_cls_loop d d of Inl e \<Rightarrow> Inl e | Inr attrs \<Rightarrow> Inr (CStruct attrs)))"
| "to_cls_loop cls [] = Inr cls"
| "to_cls_loop cls ((p, v) # rest) =
     (if public p
      then (case v of
              CDict e \<Rightarrow>
                if marked e
                then (case dict_to_cls e of
                        Inl err \<Rightarrow> Inl err
                      | Inr s \<Rightarrow> to_cls_loop (AList.update p s cls) rest)
                else to_cls_loop (AList.update p v cls) rest
            | _ \<Rightarrow> to_cls_loop (AList.update p v cls) rest)
      else to_cls_loop cls rest)"

text \<open>
  What the round trip is expected to return for a value and for an attribute list: a
  plain value is itself, and a class is a \<open>Struct\<close> of its public attributes, each
  rebuilt, that also carries the marker \<open>was_class = True\<close>.
\<close>

fun rebuilt :: "cfgval \<Rightarrow> cfgval"
  and rebuilt_items :: "(string \<times> cfgval) list \<Rightarrow> (string \<times> cfgval) list"
  where
  "rebuilt (CClass a) = CStruct (AList.update ''was_class'' (CBool True) (rebuilt_items a))"
| "rebuilt CNone = CNone"
| "rebuilt (CBool b) = CBool b"
| "rebuilt (CInt i) = CInt i"
| "rebuilt (CStr s) = CStr s"
| "rebuilt (CDict d) = CDict d"
| "rebuilt (CStruct a) = CStruct a"
| "rebuilt_items [] = []"
| "rebuilt_items ((p, v) # rest) =
     (if public p then (p, rebuilt v) # rebuilt_items rest else rebuilt_items rest)"

text \<open>
  A configuration whose public attributes are plain values or nested classes: at every level
  each public name occurs once and none is \<open>self\<close>; a plain value is anything but a class
  or a dictionary that carries a true \<open>was_class\<close> itself.
\<close>

fun wf_value :: "cfgval \<Rightarrow> bool"
  and wf_items :: "(string \<times> cfgval) list \<Rightarrow> bool"
  where
  "wf_value (CClass a) =
     (distinct (map fst (public_items a)) \<and> ''self'' \<notin> set (map fst (public_items a))
      \<and> wf_items a)"
| "wf_value (CDict e) = (\<not> marked e)"
| "wf_value CNone = True"
| "wf_value (CBool b) = True"
| "wf_value (CInt i) = True"
| "wf_value (CStr s) = True"
| "wf_value (CStruct a) = True"
| "wf_items [] = True"
| "wf_items ((p, v) # rest) = (if public p then wf_value v \<and> wf_items rest else wf_items rest)"

definition wf_config :: "(string \<times> cfgval) list \<Rightarrow> bool" where
  "wf_config attrs = wf_value (CClass attrs)"

text \<open>The value \<open>cls_to_dict\<close> stores for an attribute, and what \<open>dict_to_cls\<close> makes of
  a stored value.\<close>

fun stored :: "cfgval \<Rightarrow> cfgval" where
  "stored (CClass a) = CDict (AList.update ''was_class'' (CBool True) (cls_to_dict a))"
| "stored v = v"

fun restored :: "cfgval \<Rightarrow> pyerror + cfgval" where
  "restored (CDict e) = (if marked e then dict_to_cls e else Inr (CDict e))"
| "restored v = Inr v"

text \<open>A configuration with one nested class.\<close>

definition cfg_example :: "(string \<times> cfgval) list" where
  "cfg_example =
     [(''__module__'', CStr ''config''), (''decoder'', CClass [(''__doc__'', CNone), (''hidden_size'', CInt 512), (''rnn_type'', CStr ''LSTM'')]),
      (''epochs'', CInt 30)]"

section \<open>CaptionGenerator.beam\_search (models.py)\<close>
































section \<open>Properties of LossChecker\<close>

lemma slice_from_zero: "slice_from xs 0 = xs"
  by (simp add: slice_from_def)

lemma slice_from_neg:
  "0 < k \<Longrightarrow> slice_from xs (- k) = drop (length xs - nat k) xs"
  by (auto simp: slice_from_def Let_def max_def nat_diff_distrib')

lemma mean_of_avg: "xs \<noteq> [] \<Longrightarrow> mean_of xs = Inr (avg xs)"
  by (simp add: mean_of_def avg_def)

lemma slice_from_nonempty:
  assumes "xs \<noteq> []" "0 \<le> k"
  shows "slice_from xs (- k) \<noteq> []"
proof (cases "k = 0")
  case True
  then show ?thesis using assms by (simp add: slice_from_zero)
next
  case False
  then have "0 < nat k" using assms by simp
  moreover have "0 < length xs" using assms by simp
  ultimately have "length xs - nat k < length xs" by arith
  moreover have "slice_from xs (- k) = drop (length xs - nat k) xs"
    using False assms by (simp add: slice_from_neg)
  ultimately show ?thesis by simp
qed

lemma mean_loop_eq:
  "list_all (\<lambda>l. l \<noteq> []) ls \<Longrightarrow> 0 \<le> k \<Longrightarrow> i + length ls \<le> length ms \<Longrightarrow>
   mean_loop ms i ls k =
     Inr (take i ms @ map (\<lambda>l. avg (slice_from l (- k))) ls @ drop (i + length ls) ms)"
proof (induction ls arbitrary: ms i)
  case Nil
  then show ?case by simp
next
  case (Cons l ls)
  have ne: "slice_from l (- k) \<noteq> []"
    using Cons.prems by (simp add: slice_from_nonempty)
  have i: "i < length ms" using Cons.prems by simp
  have "mean_loop ms i (l # ls) k
      = mean_loop (ms[i := avg (slice_from l (- k))]) (Suc i) ls k"
    using i by (simp add: bind_res_def mean_of_avg[OF ne])
  also have "\<dots> = Inr (take (Suc i) (ms[i := avg (slice_from l (- k))])
        @ map (\<lambda>l. avg (slice_from l (- k))) ls
        @ drop (Suc i + length ls) (ms[i := avg (slice_from l (- k))]))"
    using Cons.prems by (intro Cons.IH) simp_all
  also have "take (Suc i) (ms[i := avg (slice_from l (- k))])
      = take i ms @ [avg (slice_from l (- k))]"
    using i by (simp add: take_Suc_conv_app_nth)
  finally show ?case by simp
qed

lemma mean_eq:
  assumes "lc_recorded lc" "0 \<le> k"
  shows "mean lc k = Inr (map (\<lambda>l. avg (slice_from l (- k))) (losses lc))"
  using assms mean_loop_eq[of "losses lc" k 0 "replicate (nat (num_losses lc)) (Num 0)"]
  by (simp add: mean_def lc_recorded_def)

text \<open>
  Claim C7. After \<open>update(1,10)\<close>, \<open>update(2,20)\<close>, \<open>update(3,30)\<close> on a checker with two
  components, \<open>mean(last=2)\<close> is \<open>[2.5, 25.0]\<close> and \<open>mean()\<close> is \<open>[2.0, 20.0]\<close>. In general,
  on a checker with recorded values, \<open>last = 0\<close> averages each component's whole list and
  \<open>last > 0\<close> averages only its most recent \<open>last\<close> entries (all of them when fewer were
  recorded).
\<close>

theorem LossChecker_mean_window:
  "bind_res lc_example (\<lambda>lc. mean lc 2) = Inr [Num 2.5, Num 25]
   \<and> bind_res lc_example (\<lambda>lc. mean lc 0) = Inr [Num 2, Num 20]
   \<and> (lc_recorded lc \<longrightarrow> mean lc 0 = Inr (map avg (losses lc)))
   \<and> (lc_recorded lc \<and> 0 < k \<longrightarrow>
        mean lc k = Inr (map (\<lambda>l. avg (drop (length l - nat k) l)) (losses lc)))"
proof (intro conjI impI)
  show "bind_res lc_example (\<lambda>lc. mean lc 2) = Inr [Num 2.5, Num 25]"
    by (simp add: lc_example_def bind_res_def update_def LossChecker_init_def mean_def
          mean_of_def slice_from_def numeral_2_eq_2 tsum_def)
  show "bind_res lc_example (\<lambda>lc. mean lc 0) = Inr [Num 2, Num 20]"
    by (simp add: lc_example_def bind_res_def update_def LossChecker_init_def mean_def
          mean_of_def slice_from_def numeral_2_eq_2 tsum_def)
  show "mean lc 0 = Inr (map avg (losses lc))" if "lc_recorded lc"
    using mean_eq[OF that, of 0] by (simp add: slice_from_zero)
  show "mean lc k = Inr (map (\<lambda>l. avg (drop (length l - nat k) l)) (losses lc))"
    if "lc_recorded lc \<and> 0 < k"
    using that mean_eq[of lc k] by (simp add: slice_from_neg)
qed

theorem LossChecker_mean_window_witness:
  "lc_recorded \<lparr> num_losses = 2, losses = [[Num 1, Num 2, Num 3], [Num 10, Num 20, Num 30]] \<rparr>
   \<and> mean \<lparr> num_losses = 2, losses = [[Num 1, Num 2, Num 3], [Num 10, Num 20, Num 30]] \<rparr> 0 = Inr [Num 2, Num 20]
   \<and> mean \<lparr> num_losses = 2, losses = [[Num 1, Num 2, Num 3], [Num 10, Num 20, Num 30]] \<rparr> 2 = Inr [Num (5 / 2), Num 25]
   \<and> mean \<lparr> num_losses = 2, losses = [[Num 1, Num 2, Num 3], [Num 10, Num 20, Num 30]] \<rparr> 7 = Inr [Num 2, Num 20]"
proof -
  let ?lc = "\<lparr> num_losses = 2, losses = [[Num 1, Num 2, Num 3], [Num 10, Num 20, Num 30]] \<rparr>"
  have r: "lc_recorded ?lc" by (simp add: lc_recorded_def)
  from LossChecker_mean_window[of ?lc 2] LossChecker_mean_window[of ?lc 7] r
  show ?thesis by (simp add: avg_def tsum_def)
qed

section \<open>Properties of entropy\_loss\<close>

lemma sum_upto_zero: "(\<And>i. i < n \<Longrightarrow> f i = 0) \<Longrightarrow> sum_upto f n = 0"
  unfolding sum_upto_def by (induction n) simp_all

lemma mean_vec_zeros: "0 < n \<Longrightarrow> mean_vec (replicate n 0) = Num 0"
  by (simp add: mean_vec_def sum_list_replicate)

lemma sum_dim0_all_masked:
  assumes "rows b = T" "cols b = B" "\<And>t j. t < T \<Longrightarrow> j < B \<Longrightarrow> at2 b t j = 0"
  shows "sum_dim0 b = replicate B 0"
proof -
  have "sum_upto (\<lambda>t. at2 b t j) T = 0" if "j < B" for j
    using assms(3) that by (intro sum_upto_zero) simp
  then have "map (\<lambda>j. sum_upto (\<lambda>t. at2 b t j) T) [0..<B] = map (\<lambda>j. 0) [0..<B]"
    by (intro map_cong) simp_all
  then show ?thesis
    by (simp add: sum_dim0_def assms(1,2) map_replicate_const)
qed

lemma all_masked_at: "all_masked x m \<Longrightarrow> t < dim0 x \<Longrightarrow> j < dim1 x \<Longrightarrow> at2 m t j"
  by (simp add: all_masked_def list_all_iff)

text \<open>
  Claim C8, as stated: for every logits tensor, if every position is flagged then
  \<open>entropy_loss\<close> returns exactly 0. It fails on an empty batch axis: the batch mean of no values
  is \<open>nan\<close>.
\<close>

theorem entropy_loss_empty_batch_nan:
  "all_masked empty_batch_logits empty_batch_mask
   \<and> entropy_loss empty_batch_logits empty_batch_mask = Inr NaN
   \<and> entropy_loss empty_batch_logits empty_batch_mask \<noteq> Inr (Num 0)"
  by (simp add: all_masked_def empty_batch_logits_def empty_batch_mask_def entropy_loss_def
        mask_assign_def sum_dim2_def mul3_def softmax_dim1_def log_softmax_dim1_def
        sum_dim0_def mean_vec_def bind_res_def)

text \<open>
  Claim C8, amended: for every logits tensor with at least one batch element, if every
  (time, batch) position is flagged by the ignore mask then \<open>entropy_loss\<close> returns
  exactly 0, whatever the logits are: the flagged positions are overwritten with 0 after
  the vocabulary-axis sum.
\<close>

theorem entropy_loss_all_masked:
  assumes "all_masked x m" and "0 < dim1 x"
  shows "entropy_loss x m = Inr (Num 0)"
proof -
  define b where "b = sum_dim2 (mul3 (softmax_dim1 x) (log_softmax_dim1 x))"
  have shape: "rows b = dim0 x" "cols b = dim1 x"
    by (simp_all add: b_def sum_dim2_def mul3_def softmax_dim1_def)
  have mshape: "rows m = rows b" "cols m = cols b"
    using assms(1) shape by (simp_all add: all_masked_def)
  define b' where "b' = b\<lparr> at2 := \<lambda>t j. if at2 m t j then 0 else at2 b t j \<rparr>"
  have assign: "mask_assign b m 0 = Inr b'"
    using mshape by (simp add: mask_assign_def b'_def)
  have "sum_dim0 b' = replicate (dim1 x) 0"
  proof (rule sum_dim0_all_masked)
    show "rows b' = dim0 x" "cols b' = dim1 x"
      using shape by (simp_all add: b'_def)
    show "at2 b' t j = 0" if "t < dim0 x" "j < dim1 x" for t j
      using all_masked_at[OF assms(1) that] by (simp add: b'_def)
  qed
  then have "mean_vec (sum_dim0 b') = Num 0"
    using assms(2) by (simp add: mean_vec_zeros)
  then show ?thesis
    using assign by (simp add: entropy_loss_def Let_def bind_res_def b_def)
qed

theorem entropy_loss_all_masked_witness:
  "all_masked masked_logits masked_mask \<and> 0 < dim1 masked_logits
   \<and> entropy_loss masked_logits masked_mask = Inr (Num 0)"
proof -
  have m: "all_masked masked_logits masked_mask"
    by (simp add: all_masked_def masked_logits_def masked_mask_def numeral_2_eq_2)
  have p: "0 < dim1 masked_logits"
    by (simp add: masked_logits_def)
  from entropy_loss_all_masked[OF m p] m p show ?thesis by simp
qed

section \<open>Properties of score, save\_result and evaluate\<close>

lemma keys_update: "set (keys (AList.update k v d)) = insert k (set (keys d))"
  by (auto simp: keys_def update_keys)

lemma keys_dict_update: "set (keys (dict_update d e)) = set (keys d) \<union> fst ` set e"
proof (induction e arbitrary: d)
  case Nil
  then show ?case by (simp add: dict_update_def)
next
  case (Cons p e)
  obtain k v where p: "p = (k, v)" by (cases p)
  have "dict_update d (p # e) = dict_update (AList.update k v d) e"
    by (simp add: dict_update_def p)
  then show ?case
    using Cons.IH[of "AList.update k v d"] by (auto simp: keys_update p)
qed

lemma getitem_in_keys: "k \<in> set (keys d) \<Longrightarrow> \<exists>v. getitem d k = Inr v"
  unfolding getitem_def keys_def
  by (cases "map_of d k") (auto simp: map_of_eq_None_iff)

lemma remap_ok:
  "fst ` set ps \<subseteq> set (keys vid2idx) \<Longrightarrow> \<exists>r. remap vid2idx f acc ps = Inr r"
proof (induction ps arbitrary: acc)
  case Nil
  then show ?case by simp
next
  case (Cons p ps)
  obtain vid x where p: "p = (vid, x)" by (cases p)
  from Cons.prems p obtain i where "getitem vid2idx vid = Inr i"
    using getitem_in_keys[of vid vid2idx] by auto
  moreover have "\<exists>r. remap vid2idx f (AList.update i (f x) acc) ps = Inr r"
    using Cons.prems by (intro Cons.IH) auto
  ultimately show ?case by (simp add: p bind_res_def)
qed

lemma write_lines_ok:
  "os_succeeds os \<Longrightarrow> set vids \<subseteq> set (keys p) \<Longrightarrow> set vids \<subseteq> set (keys g) \<Longrightarrow>
   \<exists>fs'. write_lines os fs path p g vids = Inr fs'"
proof (induction vids arbitrary: fs)
  case Nil
  then show ?case by simp
next
  case (Cons vid vids)
  obtain gts where g: "getitem g vid = Inr gts"
    using Cons.prems getitem_in_keys[of vid g] by auto
  obtain pred where p: "getitem p vid = Inr pred"
    using Cons.prems getitem_in_keys[of vid p] by auto
  obtain fs1 where w: "fout_write os fs path
      (join '', '' [vid, pred, join '' / '' gts] @ [CHR 0x0A]) = Inr fs1"
    using Cons.prems(1) unfolding os_succeeds_def by blast
  have "\<exists>fs'. write_lines os fs1 path p g vids = Inr fs'"
    using Cons.prems by (intro Cons.IH) auto
  then show ?case using g p w by (simp add: bind_res_def Let_def)
qed

lemma vid2idx_keys:
  "set (keys (dict_of (map (\<lambda>(i, v). (v, i)) (enumerate 0 ks)))) = set ks"
proof -
  have "fst ` set (map (\<lambda>(i, v). (v, i)) (enumerate 0 ks)) = snd ` set (enumerate 0 ks)"
    by force
  also have "\<dots> = set ks"
    by (metis list.set_map map_snd_enumerate)
  finally show ?thesis
    by (simp add: dict_of_def keys_dict_update) (simp add: keys_def)
qed

lemma score_proceeds:
  assumes "set (keys p) = set (keys g)"
  shows "\<exists>refs hypos. score bleu p g = calc_scores bleu refs hypos"
proof -
  let ?v = "dict_of (map (\<lambda>(i, v). (v, i)) (enumerate 0 (keys p)))"
  have "fst ` set g \<subseteq> set (keys ?v)"
    using assms unfolding vid2idx_keys by (simp add: keys_def)
  then obtain refs where r: "remap ?v (\<lambda>GTs. GTs) [] g = Inr refs"
    using remap_ok by blast
  have "fst ` set p \<subseteq> set (keys ?v)"
    unfolding vid2idx_keys by (simp add: keys_def)
  then obtain hypos where h: "remap ?v (\<lambda>pred. [pred]) [] p = Inr hypos"
    using remap_ok by blast
  show ?thesis
    using assms r h by (auto simp: score_def Let_def bind_res_def)
qed

lemma save_result_proceeds:
  assumes "set (keys p) = set (keys g)" and "os_succeeds os"
  shows "\<exists>fs'. save_result os fs p g path = Inr fs'"
proof -
  obtain fs1 where m: "(if \<not> path_exists os fs (dirname path)
      then makedirs os fs (dirname path) else Inr fs) = Inr fs1"
    using assms(2) unfolding os_succeeds_def by (metis (full_types))
  obtain fs2 where opn: "open_w os fs1 path = Inr fs2"
    using assms(2) unfolding os_succeeds_def by blast
  obtain fs3 where "write_lines os fs2 path p g (keys p) = Inr fs3"
    using write_lines_ok[OF assms(2), of "keys p" p g fs2 path] assms(1) by auto
  then show ?thesis
    using assms(1) m opn by (simp add: save_result_def Let_def bind_res_def)
qed

text \<open>
  Claim C9. \<open>score\<close> and \<open>save_result\<close> raise \<open>AssertionError\<close> whenever the prediction map's
  key set differs from the reference map's, whatever the scorer and the operating system
  do. Otherwise they proceed: \<open>score\<close> hands dense-indexed references and hypotheses to the
  scorer and returns what \<open>calc_scores\<close> makes of its answer, and \<open>save_result\<close> returns
  normally when the operating system's effects succeed.
\<close>

theorem key_set_enforcement:
  "(set (keys p) \<noteq> set (keys g) \<longrightarrow>
      score bleu p g = Inl AssertionError \<and> save_result os fs p g path = Inl AssertionError)
   \<and> (set (keys p) = set (keys g) \<longrightarrow>
        (\<exists>refs hypos. score bleu p g = calc_scores bleu refs hypos)
        \<and> (os_succeeds os \<longrightarrow> (\<exists>fs'. save_result os fs p g path = Inr fs')))"
proof (intro conjI impI)
  assume "set (keys p) \<noteq> set (keys g)"
  then show "score bleu p g = Inl AssertionError"
    and "save_result os fs p g path = Inl AssertionError"
    by (simp_all add: score_def save_result_def)
next
  assume "set (keys p) = set (keys g)"
  then show "\<exists>refs hypos. score bleu p g = calc_scores bleu refs hypos"
    by (rule score_proceeds)
next
  assume "set (keys p) = set (keys g)" and "os_succeeds os"
  then show "\<exists>fs'. save_result os fs p g path = Inr fs'"
    by (rule save_result_proceeds)
qed

theorem key_set_enforcement_witness:
  "set (keys pred_v1) \<noteq> set (keys refs_v1_v2)
   \<and> score bleu_stub pred_v1 refs_v1_v2 = Inl AssertionError
   \<and> save_result mem_os [] pred_v1 refs_v1_v2 ''out/result.txt'' = Inl AssertionError
   \<and> set (keys pred_v1) = set (keys refs_v1)
   \<and> os_succeeds mem_os
   \<and> (\<exists>refs hypos. score bleu_stub pred_v1 refs_v1 = calc_scores bleu_stub refs hypos)
   \<and> (\<exists>fs'. save_result mem_os [] pred_v1 refs_v1 ''out/result.txt'' = Inr fs')"
proof -
  have d: "set (keys pred_v1) \<noteq> set (keys refs_v1_v2)"
    by (simp add: keys_def pred_v1_def refs_v1_v2_def)
  have e: "set (keys pred_v1) = set (keys refs_v1)"
    by (simp add: keys_def pred_v1_def refs_v1_def)
  have s: "os_succeeds mem_os"
    by (simp add: os_succeeds_def mem_os_def)
  from key_set_enforcement[of pred_v1 refs_v1_v2 bleu_stub mem_os "[]" "''out/result.txt''"]
       key_set_enforcement[of pred_v1 refs_v1 bleu_stub mem_os "[]" "''out/result.txt''"]
       d e s
  show ?thesis by blast
qed

text \<open>
  Claim C10. The result of \<open>evaluate\<close> does not depend on its \<open>beam_width\<close> and
  \<open>beam_alpha\<close> arguments: two calls that differ only in them return the same report,
  because \<open>evaluate\<close> always generates the captions with beam width 5 and alpha 0.
\<close>

theorem evaluate_ignores_beam_arguments:
  "evaluate py bleu data_iter M st vocab beam_width beam_alpha
     = evaluate py bleu data_iter M st vocab beam_width' beam_alpha'
   \<and> evaluate py bleu data_iter M st vocab beam_width beam_alpha
     = bind_res (get_predicted_captions py data_iter M st vocab 5 0)
         (\<lambda>(vid2pred, st).
            bind_res (get_groundtruth_captions data_iter vocab)
              (\<lambda>vid2GTs. bind_res (score bleu vid2pred vid2GTs)
                 (\<lambda>scores. Inr (scores, st))))"
  by (simp add: evaluate_def)

section \<open>Properties of get\_predicted\_captions\<close>

lemma add_once_props:
  "distinct (keys d) \<Longrightarrow>
   distinct (keys (add_once d ps)) \<and> map_of (add_once d ps) = map_of (d @ ps)
   \<and> set (keys (add_once d ps)) = set (keys d) \<union> fst ` set ps
   \<and> set (add_once d ps) \<subseteq> set d \<union> set ps"
proof (induction ps arbitrary: d)
  case Nil
  then show ?case by simp
next
  case (Cons p ps)
  obtain vid feat where p: "p = (vid, feat)" by (cases p)
  show ?case
  proof (cases "vid \<in> set (keys d)")
    case True
    then have "map_of d vid \<noteq> None"
      by (simp add: keys_def map_of_eq_None_iff)
    then have "map_of (d @ p # ps) = map_of (d @ ps)"
      by (auto simp: p map_add_def fun_eq_iff split: option.splits)
    then show ?thesis using True Cons.IH[OF Cons.prems] by (auto simp: p)
  next
    case False
    then have upd: "AList.update vid feat d = d @ [(vid, feat)]"
      by (induction d) (auto simp: keys_def)
    have "distinct (keys (d @ [(vid, feat)]))"
      using False Cons.prems by (simp add: keys_def)
    from Cons.IH[OF this] show ?thesis using False by (auto simp: p upd keys_def)
  qed
qed


lemma unbind3_shape: "f \<in> set (unbind3 x) \<Longrightarrow> rows f = dim1 x \<and> cols f = dim2 x"
  by (auto simp: unbind3_def)

lemma onlyonce_loop_props:
  "list_all (wf_batch F D) bs \<Longrightarrow> distinct (keys d) \<Longrightarrow>
   list_all (\<lambda>(v, f). rows f = F \<and> cols f = D) d \<Longrightarrow>
   \<exists>d'. onlyonce_loop d bs = Inr d' \<and> distinct (keys d')
      \<and> map_of d' = map_of (d @ parsed_pairs bs)
      \<and> set (keys d') = set (keys d) \<union> fst ` set (parsed_pairs bs)
      \<and> list_all (\<lambda>(v, f). rows f = F \<and> cols f = D) d'"
proof (induction bs arbitrary: d)
  case Nil
  then show ?case by simp
next
  case (Cons b bs)
  from Cons.prems(1) obtain vids feats captions where
    pb: "parse_batch b = Inr (vids, feats, captions)"
    and shape: "dim1 feats = F" "dim2 feats = D"
    by (auto simp: wf_batch_def split: sum.splits)
  let ?ps = "zip vids (unbind3 feats)"
  let ?d1 = "add_once d ?ps"
  have a: "distinct (keys ?d1)" "map_of ?d1 = map_of (d @ ?ps)"
    "set (keys ?d1) = set (keys d) \<union> fst ` set ?ps" "set ?d1 \<subseteq> set d \<union> set ?ps"
    using add_once_props[OF Cons.prems(2), of ?ps] by simp_all
  have "list_all (\<lambda>(v, f). rows f = F \<and> cols f = D) ?ps"
    using shape unbind3_shape[of _ feats] by (auto simp: list_all_iff dest!: set_zip_rightD)
  then have sh1: "list_all (\<lambda>(v, f). rows f = F \<and> cols f = D) ?d1"
    using Cons.prems(3) a(4) by (auto simp: list_all_iff)
  have "list_all (wf_batch F D) bs" using Cons.prems(1) by simp
  from Cons.IH[OF this a(1) sh1] obtain d' where d':
    "onlyonce_loop ?d1 bs = Inr d'" "distinct (keys d')"
    "map_of d' = map_of (?d1 @ parsed_pairs bs)"
    "set (keys d') = set (keys ?d1) \<union> fst ` set (parsed_pairs bs)"
    "list_all (\<lambda>(v, f). rows f = F \<and> cols f = D) d'"
    by blast
  have "map_of d' = map_of (d @ parsed_pairs (b # bs))"
    using d'(3) a(2) by (simp add: pb)
  moreover have "set (keys d') = set (keys d) \<union> fst ` set (parsed_pairs (b # bs))"
    using d'(4) a(3) by (auto simp: pb)
  moreover have "onlyonce_loop d (b # bs) = Inr d'"
    using d'(1) by (simp add: pb bind_res_def)
  ultimately show ?case using d'(2,5) by blast
qed

lemma torch_stack_ok:
  assumes "ts \<noteq> []" "list_all (\<lambda>f. rows f = F \<and> cols f = D) ts"
  shows "\<exists>st. torch_stack ts = Inr st \<and> unbind3 st = ts \<and> dim0 st = length ts"
proof -
  obtain t ts' where ts: "ts = t # ts'" using assms(1) by (cases ts) auto
  have all: "list_all (\<lambda>u. rows u = rows t \<and> cols u = cols t) ts"
    using assms(2) by (auto simp: ts list_all_iff)
  let ?st = "\<lparr> dim0 = length ts, dim1 = rows t, dim2 = cols t, at3 = \<lambda>i. at2 (ts ! i) \<rparr>"
  have st: "torch_stack ts = Inr ?st"
    using all unfolding torch_stack_def ts by simp
  have "unbind3 ?st = ts"
  proof (rule nth_equalityI)
    show "length (unbind3 ?st) = length ts" by (simp add: unbind3_def)
    fix i assume "i < length (unbind3 ?st)"
    then have i: "i < length ts" by (simp add: unbind3_def)
    then have "rows (ts ! i) = rows t \<and> cols (ts ! i) = cols t"
      using all by (simp add: list_all_length)
    then show "unbind3 ?st ! i = ts ! i"
      using i by (simp add: unbind3_def)
  qed
  then show ?thesis using st by auto
qed


lemma rebatch_props_gen:
  "py \<noteq> Python3 \<Longrightarrow> length vids = length feats \<Longrightarrow> list_all (\<lambda>f. rows f = F \<and> cols f = D) feats \<Longrightarrow>
   \<exists>chunks. rebatch py acc vids feats = Inr (acc @ chunks)
     \<and> concat (map fst chunks) = vids
     \<and> list_all (\<lambda>(vs, st). vs \<noteq> [] \<and> length vs \<le> 100 \<and> dim0 st = length vs
           \<and> set (zip vs (unbind3 st)) \<subseteq> set (zip vids feats)) chunks"
proof (induction py acc vids feats rule: rebatch.induct)
  case (1 py acc vids feats)
  show ?case
  proof (cases "length vids > 0")
    case False
    then show ?thesis by (subst rebatch.simps) simp
  next
    case True
    have ne: "take 100 feats \<noteq> []" using True "1.prems"(2) by auto
    have sh: "list_all (\<lambda>f. rows f = F \<and> cols f = D) (take 100 feats)"
      using "1.prems"(3) by (auto simp: list_all_iff dest: in_set_takeD)
    from torch_stack_ok[OF ne sh] obtain st where st:
      "torch_stack (take 100 feats) = Inr st" "unbind3 st = take 100 feats"
      "dim0 st = length (take 100 feats)"
      by blast
    have len': "length (drop 100 vids) = length (drop 100 feats)"
      using "1.prems"(2) by simp
    have sh': "list_all (\<lambda>f. rows f = F \<and> cols f = D) (drop 100 feats)"
      using "1.prems"(3) by (auto simp: list_all_iff dest: in_set_dropD)
    from "1.IH"[OF True "1.prems"(1) st(1) "1.prems"(1) len' sh'] obtain chunks where ch:
      "rebatch py (acc @ [(take 100 vids, st)]) (drop 100 vids) (drop 100 feats)
         = Inr ((acc @ [(take 100 vids, st)]) @ chunks)"
      "concat (map fst chunks) = drop 100 vids"
      "list_all (\<lambda>(vs, st). vs \<noteq> [] \<and> length vs \<le> 100 \<and> dim0 st = length vs
           \<and> set (zip vs (unbind3 st)) \<subseteq> set (zip (drop 100 vids) (drop 100 feats))) chunks"
      by blast
    let ?chunks = "(take 100 vids, st) # chunks"
    have r: "rebatch py acc vids feats = Inr (acc @ ?chunks)"
      using True st(1) ch(1) "1.prems"(1) by (subst rebatch.simps) simp
    have c: "concat (map fst ?chunks) = vids"
      using ch(2) by simp
    have sub_drop: "set (zip (drop 100 vids) (drop 100 feats)) \<subseteq> set (zip vids feats)"
      by (metis drop_zip set_drop_subset)
    have sub_take: "set (zip (take 100 vids) (take 100 feats)) \<subseteq> set (zip vids feats)"
      by (metis take_zip set_take_subset)
    have first: "take 100 vids \<noteq> [] \<and> length (take 100 vids) \<le> 100
        \<and> dim0 st = length (take 100 vids)
        \<and> set (zip (take 100 vids) (unbind3 st)) \<subseteq> set (zip vids feats)"
      using True st(2,3) "1.prems"(2) sub_take by auto
    have rest: "list_all (\<lambda>(vs, st). vs \<noteq> [] \<and> length vs \<le> 100 \<and> dim0 st = length vs
           \<and> set (zip vs (unbind3 st)) \<subseteq> set (zip vids feats)) chunks"
      using ch(3) sub_drop by (fastforce simp: list_all_iff)
    show ?thesis using r c first rest by (intro exI[of _ ?chunks]) simp
  qed
qed

lemma rebatch_props:
  "length vids = length feats \<Longrightarrow> list_all (\<lambda>f. rows f = F \<and> cols f = D) feats \<Longrightarrow>
   \<exists>chunks. rebatch Python2 acc vids feats = Inr (acc @ chunks)
     \<and> concat (map fst chunks) = vids
     \<and> list_all (\<lambda>(vs, st). vs \<noteq> [] \<and> length vs \<le> 100 \<and> dim0 st = length vs
           \<and> set (zip vs (unbind3 st)) \<subseteq> set (zip vids feats)) chunks"
  by (rule rebatch_props_gen) simp_all

lemma zip_keys_vals: "zip (keys d) (vals d) = d"
  by (simp add: keys_def vals_def zip_map_fst_snd)


lemma update_new: "k \<notin> set (keys d) \<Longrightarrow> AList.update k v d = d @ [(k, v)]"
  by (induction d) (auto simp: keys_def)

lemma dict_update_append:
  "distinct (map fst e) \<Longrightarrow> set (map fst e) \<inter> set (keys d) = {} \<Longrightarrow> dict_update d e = d @ e"
proof (induction e arbitrary: d)
  case Nil
  then show ?case by (simp add: dict_update_def)
next
  case (Cons p e)
  obtain k v where p: "p = (k, v)" by (cases p)
  have k: "k \<notin> set (keys d)" using Cons.prems(2) by (auto simp: p)
  have "dict_update d (p # e) = dict_update (d @ [(k, v)]) e"
    by (simp add: dict_update_def p update_new[OF k])
  also have "\<dots> = (d @ [(k, v)]) @ e"
    using Cons.prems by (intro Cons.IH) (auto simp: p keys_def)
  finally show ?case by (simp add: p)
qed

lemma sentences_length: "sentences cs i2w eos = Inr ss \<Longrightarrow> length ss = length cs"
  by (induction cs arbitrary: ss) (auto simp: bind_res_def split: sum.splits)

lemma map_of_append_zip:
  assumes "distinct vs" "set vs \<inter> set (keys d) = {}" "length vs = length ss"
  shows "map (map_of (d @ zip vs ss)) vs = map Some ss"
proof (rule nth_equalityI)
  show "length (map (map_of (d @ zip vs ss)) vs) = length (map Some ss)"
    using assms(3) by simp
  fix i assume "i < length (map (map_of (d @ zip vs ss)) vs)"
  then have i: "i < length vs" by simp
  then have "vs ! i \<in> set vs" by simp
  then have "vs ! i \<notin> set (keys d)" using assms(2) by blast
  then have "map_of d (vs ! i) = None"
    by (simp add: keys_def map_of_eq_None_iff)
  moreover have "map_of (zip vs ss) (vs ! i) = Some (ss ! i)"
    using assms(1,3) i by (simp add: map_of_zip_nth)
  ultimately show "map (map_of (d @ zip vs ss)) vs ! i = map Some ss ! i"
    using i assms(3) by (simp add: map_add_def)
qed

lemma predict_loop_props:
  assumes g1: "\<forall>feats. length (g feats bw ba) = dim0 feats"
    and g2: "\<forall>feats. \<exists>ss. sentences (g feats bw ba) (idx2word vocab) eos = Inr ss"
  shows "distinct (keys d @ concat (map fst chunks)) \<Longrightarrow>
     list_all (\<lambda>(vs, st). dim0 st = length vs) chunks \<Longrightarrow>
     \<exists>d'. predict_loop (logging_model g) calls vocab eos bw ba d chunks
            = Inr (d', calls @ map (\<lambda>(vs, st). (st, bw, ba)) chunks)
        \<and> keys d' = keys d @ concat (map fst chunks)
        \<and> (\<forall>k\<in>set (keys d). map_of d' k = map_of d k)
        \<and> list_all (\<lambda>(vs, st). \<exists>ss. sentences (g st bw ba) (idx2word vocab) eos = Inr ss
              \<and> map (map_of d') vs = map Some ss) chunks"
proof (induction chunks arbitrary: d calls)
  case Nil
  then show ?case by simp
next
  case (Cons c chunks)
  obtain vs st where c: "c = (vs, st)" by (cases c)
  obtain ss where ss: "sentences (g st bw ba) (idx2word vocab) eos = Inr ss"
    using g2 by blast
  have len: "length vs = length ss"
    using sentences_length[OF ss] g1 Cons.prems(2) by (simp add: c)
  have dvs: "distinct vs" and disj: "set vs \<inter> set (keys d) = {}"
    using Cons.prems(1) by (auto simp: c)
  have zk: "map fst (zip vs ss) = vs" using len by simp
  have "dict_of (zip vs ss) = zip vs ss"
    unfolding dict_of_def using dvs by (subst dict_update_append) (simp_all add: zk keys_def)
  then have d1: "dict_update d (dict_of (zip vs ss)) = d @ zip vs ss"
    using dvs disj by (simp add: dict_update_append zk)
  let ?d1 = "d @ zip vs ss"
  have k1: "keys ?d1 = keys d @ vs" using zk by (simp add: keys_def)
  have dist1: "distinct (keys ?d1 @ concat (map fst chunks))"
    using Cons.prems(1) by (simp add: k1 c)
  have sh1: "list_all (\<lambda>(vs, st). dim0 st = length vs) chunks"
    using Cons.prems(2) by simp
  from Cons.IH[OF dist1 sh1, of "calls @ [(st, bw, ba)]"] obtain d' where d':
    "predict_loop (logging_model g) (calls @ [(st, bw, ba)]) vocab eos bw ba ?d1 chunks
       = Inr (d', (calls @ [(st, bw, ba)]) @ map (\<lambda>(vs, st). (st, bw, ba)) chunks)"
    "keys d' = keys ?d1 @ concat (map fst chunks)"
    "\<forall>k\<in>set (keys ?d1). map_of d' k = map_of ?d1 k"
    "list_all (\<lambda>(vs, st). \<exists>ss. sentences (g st bw ba) (idx2word vocab) eos = Inr ss
              \<and> map (map_of d') vs = map Some ss) chunks"
    by blast
  have run: "predict_loop (logging_model g) calls vocab eos bw ba d (c # chunks)
      = Inr (d', calls @ map (\<lambda>(vs, st). (st, bw, ba)) (c # chunks))"
    using d'(1) ss d1 by (simp add: c logging_model_def bind_res_def)
  have ks: "keys d' = keys d @ concat (map fst (c # chunks))"
    using d'(2) by (simp add: k1 c)
  have old: "\<forall>k\<in>set (keys d). map_of d' k = map_of d k"
  proof
    fix k assume k: "k \<in> set (keys d)"
    then have "map_of d' k = map_of ?d1 k" using d'(3) by (simp add: k1)
    moreover have "map_of d k \<noteq> None" using k by (simp add: keys_def map_of_eq_None_iff)
    ultimately show "map_of d' k = map_of d k" by (auto simp: map_add_def split: option.splits)
  qed
  have "map (map_of d') vs = map (map_of ?d1) vs"
    using d'(3) by (intro map_cong refl) (simp add: k1)
  also have "\<dots> = map Some ss"
    by (rule map_of_append_zip[OF dvs disj len])
  finally have cur: "map (map_of d') vs = map Some ss" .
  show ?case using run ks old cur ss d'(4) by (auto simp: c)
qed


lemma map_of_zip_subset:
  assumes "length vs = length fs" "set (zip vs fs) \<subseteq> set d" "distinct (map fst d)"
  shows "map (map_of d) vs = map Some fs"
proof (rule nth_equalityI)
  show "length (map (map_of d) vs) = length (map Some fs)" using assms(1) by simp
  fix i assume "i < length (map (map_of d) vs)"
  then have i: "i < length vs" by simp
  then have "(vs ! i, fs ! i) \<in> set (zip vs fs)"
    using assms(1) by (metis in_set_zip fst_conv snd_conv)
  then have "(vs ! i, fs ! i) \<in> set d" using assms(2) by blast
  then have "map_of d (vs ! i) = Some (fs ! i)"
    using assms(3) by (simp add: map_of_eq_Some_iff)
  then show "map (map_of d) vs ! i = map Some fs ! i" using i assms(1) by simp
qed

text \<open>
  Where \<open>keys()\<close> and \<open>values()\<close> are lists (Python 2), on an iterator whose batches line
  up (as many video ids as feature rows, all features of one shape), with \<open><EOS>\<close> in the
  vocabulary and a model whose \<open>describe\<close> returns one convertible index sequence per
  video, \<open>get_predicted_captions\<close> returns normally and:
  the chunks it builds hold every video id of the iterator exactly once, each chunk has
  between 1 and 100 videos, and each video comes with the first feature tensor seen for it;
  \<open>describe\<close> is called exactly once per chunk, in order, on the chunk's stacked features
  with the caller's \<open>beam_width\<close> and \<open>beam_alpha\<close>; and the returned map has exactly the
  video ids of the iterator as keys, each mapped to the sentence of the index sequence that
  \<open>describe\<close> returned at its position in its chunk.
\<close>

theorem get_predicted_captions_python2:
  assumes wf: "list_all (wf_batch F D) data_iter"
    and eos: "getitem (word2idx vocab) ''<EOS>'' = Inr eos"
    and g1: "\<forall>feats. length (g feats bw ba) = dim0 feats"
    and g2: "\<forall>feats. \<exists>ss. sentences (g feats bw ba) (idx2word vocab) eos = Inr ss"
  shows "\<exists>chunks vid2pred.
      build_onlyonce_iter Python2 data_iter = Inr chunks
    \<and> distinct (concat (map fst chunks))
    \<and> set (concat (map fst chunks)) = fst ` set (parsed_pairs data_iter)
    \<and> list_all (\<lambda>(vids, feats). vids \<noteq> [] \<and> length vids \<le> 100
          \<and> map (map_of (parsed_pairs data_iter)) vids = map Some (unbind3 feats)) chunks
    \<and> get_predicted_captions Python2 data_iter (logging_model g) [] vocab bw ba
         = Inr (vid2pred, map (\<lambda>(vids, feats). (feats, bw, ba)) chunks)
    \<and> distinct (keys vid2pred)
    \<and> set (keys vid2pred) = fst ` set (parsed_pairs data_iter)
    \<and> list_all (\<lambda>(vids, feats). \<exists>ss.
            sentences (g feats bw ba) (idx2word vocab) eos = Inr ss
          \<and> map (map_of vid2pred) vids = map Some ss) chunks"
proof -
  from onlyonce_loop_props[OF wf, of "[]"] obtain ds where ds:
    "onlyonce_loop [] data_iter = Inr ds" "distinct (keys ds)"
    "map_of ds = map_of (parsed_pairs data_iter)"
    "set (keys ds) = fst ` set (parsed_pairs data_iter)"
    "list_all (\<lambda>(v, f). rows f = F \<and> cols f = D) ds"
    by (auto simp: keys_def)
  have len: "length (keys ds) = length (vals ds)" by (simp add: keys_def vals_def)
  have sh: "list_all (\<lambda>f. rows f = F \<and> cols f = D) (vals ds)"
    using ds(5) by (auto simp: vals_def list_all_iff)
  from rebatch_props[OF len sh, of "[]"] obtain chunks where ch:
    "rebatch Python2 [] (keys ds) (vals ds) = Inr chunks"
    "concat (map fst chunks) = keys ds"
    "list_all (\<lambda>(vs, st). vs \<noteq> [] \<and> length vs \<le> 100 \<and> dim0 st = length vs
        \<and> set (zip vs (unbind3 st)) \<subseteq> set (zip (keys ds) (vals ds))) chunks"
    by auto
  have build: "build_onlyonce_iter Python2 data_iter = Inr chunks"
    using ds(1) ch(1) by (simp add: build_onlyonce_iter_def bind_res_def)
  have feats: "list_all (\<lambda>(vids, feats). vids \<noteq> [] \<and> length vids \<le> 100
      \<and> map (map_of (parsed_pairs data_iter)) vids = map Some (unbind3 feats)) chunks"
    unfolding list_all_iff
  proof (intro ballI, clarify, intro conjI)
    fix vs st assume c: "(vs, st) \<in> set chunks"
    then have p: "vs \<noteq> []" "length vs \<le> 100" "dim0 st = length vs"
      "set (zip vs (unbind3 st)) \<subseteq> set ds"
      using ch(3) by (auto simp: list_all_iff zip_keys_vals)
    show "vs \<noteq> []" "length vs \<le> 100" using p by simp_all
    have "length vs = length (unbind3 st)" using p(3) by (simp add: unbind3_def)
    from map_of_zip_subset[OF this p(4)] ds(2)
    have "map (map_of ds) vs = map Some (unbind3 st)" by (simp add: keys_def)
    then show "map (map_of (parsed_pairs data_iter)) vs = map Some (unbind3 st)"
      by (simp add: ds(3))
  qed
  have dist0: "distinct (keys [] @ concat (map fst chunks))"
    using ds(2) ch(2) by (simp add: keys_def)
  have sh0: "list_all (\<lambda>(vs, st). dim0 st = length vs) chunks"
    using ch(3) by (auto simp: list_all_iff)
  from predict_loop_props[where g = g and bw = bw and ba = ba and vocab = vocab and eos = eos
      and d = "[]" and chunks = chunks and calls = "[]", OF g1 g2 dist0 sh0]
  obtain vid2pred where vp:
    "predict_loop (logging_model g) [] vocab eos bw ba [] chunks
       = Inr (vid2pred, map (\<lambda>(vs, st). (st, bw, ba)) chunks)"
    "keys vid2pred = concat (map fst chunks)"
    "list_all (\<lambda>(vs, st). \<exists>ss. sentences (g st bw ba) (idx2word vocab) eos = Inr ss
        \<and> map (map_of vid2pred) vs = map Some ss) chunks"
    by (auto simp: keys_def)
  have run: "get_predicted_captions Python2 data_iter (logging_model g) [] vocab bw ba
      = Inr (vid2pred, map (\<lambda>(vids, feats). (feats, bw, ba)) chunks)"
    using build eos vp(1)
    by (simp add: get_predicted_captions_def bind_res_def logging_model_def)
  show ?thesis
    using build ds(2,4) ch(2) feats run vp(2,3) by (intro exI[of _ chunks] exI[of _ vid2pred]) simp
qed

theorem get_predicted_captions_python2_witness:
  "list_all (wf_batch 1 1) demo_iter
   \<and> getitem (word2idx demo_vocab) ''<EOS>'' = Inr 2
   \<and> (\<forall>feats. length (demo_describe feats 3 0) = dim0 feats)
   \<and> (\<forall>feats. \<exists>ss. sentences (demo_describe feats 3 0) (idx2word demo_vocab) 2 = Inr ss)
   \<and> fst ` set (parsed_pairs demo_iter) = {''v1'', ''v2''}
   \<and> (\<exists>chunks vid2pred.
        build_onlyonce_iter Python2 demo_iter = Inr chunks
      \<and> get_predicted_captions Python2 demo_iter (logging_model demo_describe) [] demo_vocab 3 0
           = Inr (vid2pred, map (\<lambda>(vids, feats). (feats, 3, 0)) chunks)
      \<and> set (keys vid2pred) = {''v1'', ''v2''})"
proof -
  have h1: "list_all (wf_batch 1 1) demo_iter"
    by (simp add: demo_iter_def wf_batch_def parse_batch_def torch_cat_dim2_def bind_res_def)
  have h2: "getitem (word2idx demo_vocab) ''<EOS>'' = Inr 2"
    by (simp add: demo_vocab_def getitem_def)
  have h3: "\<forall>feats. length (demo_describe feats 3 0) = dim0 feats"
    by (simp add: demo_describe_def)
  have s: "sentences (replicate n [1, 3, 2]) (idx2word demo_vocab) 2 = Inr (replicate n ''a'')"
    for n
    by (induction n) (simp_all add: idxs_to_sentence_def demo_vocab_def getitem_def bind_res_def)
  have h4: "\<forall>feats. \<exists>ss. sentences (demo_describe feats 3 0) (idx2word demo_vocab) 2 = Inr ss"
    unfolding demo_describe_def using s by blast
  have p: "fst ` set (parsed_pairs demo_iter) = {''v1'', ''v2''}"
    by (auto simp: demo_iter_def parse_batch_def torch_cat_dim2_def bind_res_def unbind3_def
          numeral_2_eq_2)
  from get_predicted_captions_python2[where g = demo_describe and bw = 3 and ba = 0
      and vocab = demo_vocab and eos = 2 and F = 1 and D = 1 and data_iter = demo_iter,
      OF h1 h2 h3 h4]
  obtain chunks vid2pred where
    "build_onlyonce_iter Python2 demo_iter = Inr chunks"
    "get_predicted_captions Python2 demo_iter (logging_model demo_describe) [] demo_vocab 3 0
       = Inr (vid2pred, map (\<lambda>(vids, feats). (feats, 3, 0)) chunks)"
    "set (keys vid2pred) = fst ` set (parsed_pairs demo_iter)"
    by blast
  then show ?thesis using h1 h2 h3 h4 p by auto
qed

lemma rebatch_python3:
  "rebatch Python3 acc vids feats = (if vids = [] then Inr acc else Inl TypeError)"
  by (subst rebatch.simps) simp

text \<open>
  Claim C6 says that \<open>get_predicted_captions\<close> re-batches the unique videos into chunks of
  at most 100, describes each chunk and returns a map from every video id to its sentence.
  Under Python 3 the code cannot: \<open>vids[:batch_size]\<close> slices a dictionary view, so with any
  video at all the function raises \<open>TypeError\<close> before \<open>describe\<close> is called. It returns
  only when there is no video, and then it returns the empty map. On the iterator of two
  batches it raises.
\<close>

theorem get_predicted_captions_python3:
  "(case get_predicted_captions Python3 data_iter M st vocab beam_width beam_alpha of
      Inl e \<Rightarrow> True
    | Inr (vid2pred, st') \<Rightarrow> vid2pred = [])
   \<and> get_predicted_captions Python3 demo_iter (logging_model demo_describe) [] demo_vocab 5 0
       = Inl TypeError"
proof
  show "case get_predicted_captions Python3 data_iter M st vocab beam_width beam_alpha of
      Inl e \<Rightarrow> True
    | Inr (vid2pred, st') \<Rightarrow> vid2pred = []"
    by (auto simp: get_predicted_captions_def build_onlyonce_iter_def bind_res_def
          rebatch_python3 Let_def split: sum.splits if_splits)
  have "onlyonce_loop [] demo_iter \<noteq> Inr []"
    by (simp add: demo_iter_def parse_batch_def torch_cat_dim2_def bind_res_def unbind3_def
          numeral_2_eq_2 keys_def)
  moreover have "\<exists>d. onlyonce_loop [] demo_iter = Inr d"
    by (simp add: demo_iter_def parse_batch_def torch_cat_dim2_def bind_res_def unbind3_def
          numeral_2_eq_2 keys_def)
  ultimately obtain d where "onlyonce_loop [] demo_iter = Inr d" "d \<noteq> []" by auto
  then show "get_predicted_captions Python3 demo_iter (logging_model demo_describe) []
      demo_vocab 5 0 = Inl TypeError"
    by (simp add: get_predicted_captions_def build_onlyonce_iter_def bind_res_def
          rebatch_python3 keys_def)
qed

section \<open>Properties of train and of Decoder.\_\_init\_\_\<close>

lemma load_losses: "load_global ''losses'' = Inl NameError"
  by (simp add: load_global_def utils_globals_def)

lemma train_loop_Cons_fails:
  "\<exists>e. train_loop ops st lc vocab PAD_idx tfr reg_lambda clip (b # rest) = Inl e"
proof (cases "parse_batch b")
  case (Inl e)
  then show ?thesis by (simp add: bind_res_def)
next
  case (Inr parsed)
  obtain vids feats captions where parsed: "parsed = (vids, feats, captions)"
    by (cases parsed)
  show ?thesis
  proof (cases "t_forward ops (t_zero_grad ops st) feats captions tfr")
    case (Inl e)
    then show ?thesis using Inr parsed by (simp add: bind_res_def)
  next
    case fwd: (Inr out_st)
    obtain logits st' where out_st: "out_st = (logits, st')" by (cases out_st)
    show ?thesis
    proof (cases "t_nll_loss ops (tail3 logits) (tail2 captions) (n_vocabs vocab) PAD_idx")
      case (Inl e)
      then show ?thesis using Inr parsed fwd out_st by (simp add: bind_res_def)
    next
      case nll: (Inr ce)
      show ?thesis
        using Inr parsed fwd out_st nll by (simp add: bind_res_def load_losses)
    qed
  qed
qed

lemma mean_fresh: "mean (LossChecker_init 3) 0 = Inl ZeroDivisionError"
  by (simp add: mean_def LossChecker_init_def numeral_3_eq_3 mean_of_def slice_from_def
        bind_res_def)

text \<open>
  Claim C1 says that \<open>train\<close> records, for every batch, the total loss
  \<open>cross_entropy + reg_lambda * entropy\<close> and its two parts. The code never gets that far:
  \<open>train\<close> raises on every input. With a batch to process, reading the global \<open>losses\<close>
  raises \<open>NameError\<close> before any value is recorded (unless an earlier step of that batch
  has raised already); with no batch, the mean of the empty record divides by zero. The
  smallest run shows the \<open>NameError\<close>.
\<close>

theorem train_always_raises:
  "(\<exists>e. train ops st train_iter vocab teacher_forcing_ratio reg_lambda gradient_clip = Inl e)
   \<and> train tiny_ops () [tiny_batch] tiny_vocab 1 0 None = Inl NameError"
proof
  show "\<exists>e. train ops st train_iter vocab teacher_forcing_ratio reg_lambda gradient_clip = Inl e"
  proof (cases "getitem (word2idx vocab) ''<PAD>''")
    case (Inl e)
    then show ?thesis by (simp add: train_def bind_res_def)
  next
    case (Inr PAD_idx)
    show ?thesis
    proof (cases train_iter)
      case Nil
      then show ?thesis using Inr by (simp add: train_def bind_res_def mean_fresh)
    next
      case (Cons b rest)
      have "\<exists>e. train_loop ops (t_train_mode ops st) (LossChecker_init 3) vocab PAD_idx
          teacher_forcing_ratio reg_lambda gradient_clip (b # rest) = Inl e"
        by (rule train_loop_Cons_fails)
      then obtain e where "train_loop ops (t_train_mode ops st) (LossChecker_init 3) vocab
          PAD_idx teacher_forcing_ratio reg_lambda gradient_clip (b # rest) = Inl e" ..
      then show ?thesis using Inr Cons by (simp add: train_def bind_res_def)
    qed
  qed
  show "train tiny_ops () [tiny_batch] tiny_vocab 1 0 None = Inl NameError"
    by (simp add: train_def bind_res_def getitem_def tiny_vocab_def tiny_batch_def tiny_ops_def
          parse_batch_def torch_cat_dim2_def load_losses)
qed

text \<open>
  Claim C2 says that constructing a \<open>Decoder\<close> with valid parameters succeeds and yields the
  embedding, the attention, the recurrent cell and the output projection. The code raises
  \<open>AttributeError\<close> for every argument list: building the embedding reads
  \<open>self.embedding_size\<close>, which was never assigned.
\<close>

theorem Decoder_init_raises:
  "Decoder_init a = Inl AttributeError"
  by (simp add: Decoder_init_def obj_setattr_def getint_def obj_getattr_def bind_res_def)

section \<open>Properties of cls\_to\_dict and dict\_to\_cls\<close>

lemma fst_public_items_map:
  "map fst (public_items (map (\<lambda>(p, v). (p, f v)) xs)) = map fst (public_items xs)"
  by (induction xs) (auto simp: public_items_def)

lemma to_dict_loop_append:
  "distinct (map fst d @ map fst (public_items ps)) \<Longrightarrow>
   to_dict_loop d ps = d @ map (\<lambda>(p, v). (p, stored v)) (public_items ps)"
proof (induction ps arbitrary: d)
  case Nil
  then show ?case by (simp add: public_items_def)
next
  case (Cons pv ps)
  obtain p v where pv: "pv = (p, v)" by (cases pv)
  show ?case
  proof (cases "public p")
    case False
    then show ?thesis using Cons by (simp add: pv public_items_def)
  next
    case True
    have notin: "p \<notin> fst ` set d"
      using Cons.prems True by (auto simp: pv public_items_def)
    have upd: "AList.update p w d = d @ [(p, w)]" for w
      using notin by (induction d) auto
    have dist: "distinct (map fst (d @ [(p, stored v)]) @ map fst (public_items ps))"
      using Cons.prems True by (auto simp: pv public_items_def)
    have "to_dict_loop d (pv # ps) = to_dict_loop (d @ [(p, stored v)]) ps"
      using True by (cases v) (simp_all add: pv upd)
    also have "\<dots> = (d @ [(p, stored v)]) @ map (\<lambda>(p, v). (p, stored v)) (public_items ps)"
      by (rule Cons.IH[OF dist])
    finally show ?thesis using True by (simp add: pv public_items_def)
  qed
qed

lemma cls_to_dict_eq:
  "distinct (map fst (public_items attrs)) \<Longrightarrow>
   cls_to_dict attrs = map (\<lambda>(p, v). (p, stored v)) (public_items attrs)"
  using to_dict_loop_append[of "[]" attrs] by simp

lemma update_mid:
  "p \<notin> fst ` set xs \<Longrightarrow> AList.update p w (xs @ (p, v) # ys) = xs @ (p, w) # ys"
  by (induction xs) auto

lemma to_cls_loop_eq:
  "distinct (map fst (done @ todo)) \<Longrightarrow> list_all (\<lambda>(p, v). public p) todo \<Longrightarrow>
   list_all2 (\<lambda>(p, v) (q, w). q = p \<and> restored v = Inr w) todo res \<Longrightarrow>
   to_cls_loop (done @ todo) todo = Inr (done @ res)"
proof (induction todo arbitrary: "done" res)
  case Nil
  then show ?case by simp
next
  case (Cons pv todo)
  obtain p v where pv: "pv = (p, v)" by (cases pv)
  from Cons.prems(3) obtain w res' where res: "res = (p, w) # res'"
    and w: "restored v = Inr w"
    and rest: "list_all2 (\<lambda>(p, v) (q, w). q = p \<and> restored v = Inr w) todo res'"
    by (auto simp: pv list_all2_Cons1)
  have pub: "public p" using Cons.prems(2) by (simp add: pv)
  have notin: "p \<notin> fst ` set done" using Cons.prems(1) by (auto simp: pv)
  have step: "to_cls_loop (done @ pv # todo) (pv # todo)
      = to_cls_loop (AList.update p w (done @ (p, v) # todo)) todo"
    using pub w by (cases v) (auto simp: pv split: if_splits sum.splits)
  have "AList.update p w (done @ (p, v) # todo) = (done @ [(p, w)]) @ todo"
    using update_mid[OF notin] by simp
  moreover have "to_cls_loop ((done @ [(p, w)]) @ todo) todo = Inr ((done @ [(p, w)]) @ res')"
  proof (rule Cons.IH)
    show "distinct (map fst ((done @ [(p, w)]) @ todo))"
      using Cons.prems(1) by (auto simp: pv)
    show "list_all (\<lambda>(p, v). public p) todo" using Cons.prems(2) by simp
    show "list_all2 (\<lambda>(p, v) (q, w). q = p \<and> restored v = Inr w) todo res'" by (rule rest)
  qed
  ultimately show ?case using step by (simp add: res)
qed

lemma dict_to_cls_eq:
  assumes "distinct (map fst d)" "list_all (\<lambda>(p, v). public p) d" "''self'' \<notin> set (map fst d)"
    and "list_all2 (\<lambda>(p, v) (q, w). q = p \<and> restored v = Inr w) d res"
  shows "dict_to_cls d = Inr (CStruct res)"
  using to_cls_loop_eq[of "[]" d res] assms by simp


lemma list_all_update:
  "list_all P al \<Longrightarrow> P (k, v) \<Longrightarrow> list_all P (AList.update k v al)"
  by (induction al) auto

lemma list_all2_update:
  "list_all2 (\<lambda>(p, v) (q, w). q = p \<and> f v = Inr w) xs ys \<Longrightarrow> f v = Inr w \<Longrightarrow>
   list_all2 (\<lambda>(p, v) (q, w). q = p \<and> f v = Inr w) (AList.update k v xs) (AList.update k w ys)"
  by (induction xs ys rule: list_all2_induct) auto

lemma marked_update: "marked (AList.update ''was_class'' (CBool True) d)"
  by (simp add: marked_def update_conv')

lemma public_was_class: "public ''was_class''"
  by (simp add: public_def)

lemma list_all_public_stored:
  "list_all (\<lambda>(p, v). public p) (map (\<lambda>(p, v). (p, stored v)) (public_items a))"
  by (induction a) (auto simp: public_items_def)

lemma fst_stored: "map fst (map (\<lambda>(p, v). (p, stored v)) xs) = map fst xs"
  by (induction xs) auto

lemma fst_stored_comp: "map (fst \<circ> (\<lambda>(p, v). (p, stored v))) xs = map fst xs"
  by (induction xs) auto

lemma round_trip_values:
  shows "wf_value v \<longrightarrow> restored (stored v) = Inr (rebuilt v)"
    and "wf_items items \<longrightarrow>
        list_all2 (\<lambda>(p, v) (q, w). q = p \<and> restored v = Inr w)
          (map (\<lambda>(p, v). (p, stored v)) (public_items items)) (rebuilt_items items)"
proof (induction v and items rule: rebuilt_rebuilt_items.induct)
  case (1 a)
  show ?case
  proof
    assume wf: "wf_value (CClass a)"
    let ?D = "map (\<lambda>(p, v). (p, stored v)) (public_items a)"
    let ?d = "AList.update ''was_class'' (CBool True) ?D"
    let ?res = "AList.update ''was_class'' (CBool True) (rebuilt_items a)"
    have dist: "distinct (map fst (public_items a))" and noself: "''self'' \<notin> set (map fst (public_items a))"
      and items: "wf_items a"
      using wf by simp_all
    have D: "cls_to_dict a = ?D" using dist by (rule cls_to_dict_eq)
    have "dict_to_cls ?d = Inr (CStruct ?res)"
    proof (rule dict_to_cls_eq)
      show "distinct (map fst ?d)"
        using dist by (intro distinct_update) (simp add: fst_stored_comp)
      show "list_all (\<lambda>(p, v). public p) ?d"
        by (intro list_all_update list_all_public_stored) (simp add: public_was_class)
      show "''self'' \<notin> set (map fst ?d)"
        using noself by (auto simp: update_keys fst_stored_comp)
      show "list_all2 (\<lambda>(p, v) (q, w). q = p \<and> restored v = Inr w) ?d ?res"
        using 1 items by (intro list_all2_update) simp_all
    qed
    then show "restored (stored (CClass a)) = Inr (rebuilt (CClass a))"
      by (simp add: D marked_update del: dict_to_cls.simps cls_to_dict.simps)
  qed
next
  case (9 p v rest)
  then show ?case by (auto simp: public_items_def)
qed (simp_all add: public_items_def)

lemma rebuilt_items_keys: "map fst (rebuilt_items x) = map fst (public_items x)"
  by (induction x) (auto simp: public_items_def)

lemma rebuilt_items_lookup:
  "distinct (map fst (public_items x)) \<Longrightarrow> (p, v) \<in> set (public_items x) \<Longrightarrow>
   map_of (rebuilt_items x) p = Some (rebuilt v)"
proof (induction x)
  case Nil
  then show ?case by (simp add: public_items_def)
next
  case (Cons qv x)
  obtain q w where qv: "qv = (q, w)" by (cases qv)
  show ?case
  proof (cases "public q")
    case False
    then show ?thesis using Cons by (simp add: qv public_items_def)
  next
    case True
    show ?thesis
    proof (cases "p = q")
      case same: True
      have "q \<notin> fst ` set (public_items x)"
        using Cons.prems(1) True by (simp add: qv public_items_def)
      then have "(q, v) \<notin> set (public_items x)" by force
      then have "v = w" using Cons.prems(2) True same by (auto simp: qv public_items_def)
      then show ?thesis using True same by (simp add: qv)
    next
      case False
      then have "(p, v) \<in> set (public_items x)"
        using Cons.prems(2) True by (auto simp: qv public_items_def)
      moreover have "distinct (map fst (public_items x))"
        using Cons.prems(1) True by (simp add: qv public_items_def)
      ultimately have "map_of (rebuilt_items x) p = Some (rebuilt v)" by (rule Cons.IH[rotated])
      then show ?thesis using True False by (simp add: qv)
    qed
  qed
qed

text \<open>
  Claim C3, amended. For every configuration whose public attributes are plain values or
  nested classes (at every level each public name once, none of them \<open>self\<close>),
  \<open>dict_to_cls(cls_to_dict(x))\<close> succeeds; the reconstructed object has exactly the public
  attribute names of \<open>x\<close>; each plain value is the one of \<open>x\<close>; and each nested class is
  a nested object that holds the class's public attributes, rebuilt the same way, and also the
  attribute \<open>was_class = True\<close>.
\<close>

theorem config_round_trip:
  assumes "wf_config x"
  shows "dict_to_cls (cls_to_dict x) = Inr (CStruct (rebuilt_items x))
    \<and> map fst (rebuilt_items x) = map fst (public_items x)
    \<and> (\<forall>p v. (p, v) \<in> set (public_items x) \<longrightarrow> map_of (rebuilt_items x) p = Some (rebuilt v))
    \<and> (\<forall>a. distinct (map fst (public_items a)) \<longrightarrow>
          (\<exists>s. rebuilt (CClass a) = CStruct s
             \<and> map_of s ''was_class'' = Some (CBool True)
             \<and> (\<forall>p v. (p, v) \<in> set (public_items a) \<and> p \<noteq> ''was_class''
                   \<longrightarrow> map_of s p = Some (rebuilt v))))"
proof (intro conjI allI impI)
  have dist: "distinct (map fst (public_items x))"
    and noself: "''self'' \<notin> set (map fst (public_items x))" and items: "wf_items x"
    using assms by (simp_all add: wf_config_def)
  let ?D = "map (\<lambda>(p, v). (p, stored v)) (public_items x)"
  have "dict_to_cls ?D = Inr (CStruct (rebuilt_items x))"
  proof (rule dict_to_cls_eq)
    show "distinct (map fst ?D)" using dist by (simp add: fst_stored_comp)
    show "list_all (\<lambda>(p, v). public p) ?D" by (rule list_all_public_stored)
    show "''self'' \<notin> set (map fst ?D)" using noself by (simp add: fst_stored_comp)
    show "list_all2 (\<lambda>(p, v) (q, w). q = p \<and> restored v = Inr w) ?D (rebuilt_items x)"
      using round_trip_values(2)[of x] items by simp
  qed
  then show "dict_to_cls (cls_to_dict x) = Inr (CStruct (rebuilt_items x))"
    by (simp only: cls_to_dict_eq[OF dist])
  show "map fst (rebuilt_items x) = map fst (public_items x)"
    by (rule rebuilt_items_keys)
  show "map_of (rebuilt_items x) p = Some (rebuilt v)" if "(p, v) \<in> set (public_items x)" for p v
    using dist that by (rule rebuilt_items_lookup)
next
  fix a :: "(string \<times> cfgval) list"
  assume dist: "distinct (map fst (public_items a))"
  let ?s = "AList.update ''was_class'' (CBool True) (rebuilt_items a)"
  have "map_of ?s p = Some (rebuilt v)"
    if "(p, v) \<in> set (public_items a) \<and> p \<noteq> ''was_class''" for p v
    using that rebuilt_items_lookup[OF dist, of p v] by (simp add: update_conv')
  moreover have "map_of ?s ''was_class'' = Some (CBool True)"
    by (simp add: update_conv')
  ultimately show "\<exists>s. rebuilt (CClass a) = CStruct s
      \<and> map_of s ''was_class'' = Some (CBool True)
      \<and> (\<forall>p v. (p, v) \<in> set (public_items a) \<and> p \<noteq> ''was_class''
            \<longrightarrow> map_of s p = Some (rebuilt v))"
    by auto
qed

text \<open>
  Claim C3, as stated, says that the marker \<open>was_class\<close> is an attribute of no reconstructed
  object. On a configuration with one nested class the reconstructed nested object has it;
  and a configuration with an attribute named \<open>self\<close> is not reconstructed at all.
\<close>

theorem config_round_trip_leaks_marker:
  "wf_config cfg_example
   \<and> dict_to_cls (cls_to_dict cfg_example) =
       Inr (CStruct
         [(''decoder'', CStruct [(''hidden_size'', CInt 512), (''rnn_type'', CStr ''LSTM''),
                                (''was_class'', CBool True)]),
          (''epochs'', CInt 30)])
   \<and> dict_to_cls (cls_to_dict [(''self'', CInt 1)]) = Inl TypeError"
  by (simp add: wf_config_def cfg_example_def public_items_def public_def marked_def)

theorem config_round_trip_witness:
  "wf_config cfg_example
   \<and> dict_to_cls (cls_to_dict cfg_example) = Inr (CStruct (rebuilt_items cfg_example))
   \<and> map fst (rebuilt_items cfg_example) = [''decoder'', ''epochs'']
   \<and> map_of (rebuilt_items cfg_example) ''epochs'' = Some (CInt 30)"
proof -
  have w: "wf_config cfg_example"
    by (simp add: wf_config_def cfg_example_def public_items_def public_def)
  have k: "map fst (public_items cfg_example) = [''decoder'', ''epochs'']"
    by (simp add: cfg_example_def public_items_def public_def)
  have m: "(''epochs'', CInt 30) \<in> set (public_items cfg_example)"
    by (simp add: cfg_example_def public_items_def public_def)
  from config_round_trip[OF w] k m show ?thesis using w by auto
qed

section \<open>Properties of beam\_search\<close>

























subsection \<open>Width 1 and greedy decoding\<close>








text \<open>One pass of the loop with a single beam whose captions hold no \<open><EOS>\<close>.\<close>

lemma map_take_one_nth: "xs \<noteq> [] \<Longrightarrow> map f (take (Suc 0) xs) ! 0 = f (hd xs)"
  by (cases xs) simp_all































end
